theory Spec2Isabelle
  imports Main
begin

section \<open>Values\<close>

text \<open>The error classes the modelled code can raise.\<close>

datatype error =
    AttributeError | TypeError | ValueError | KeyError | ParserError | SqlError
  | FileNotFoundError | EmptyDataError

text \<open>A cell of a table, and the values \<^verbatim>\<open>students_str_map\<close> returns:
  an integer, a string, or Python's \<^verbatim>\<open>None\<close>.\<close>

datatype cell = IntV int | StrV string | NoneV

text \<open>What an attribute of an object can hold: the values the constructors store, a
  reference to a table object (its address), and a method of the class.\<close>

datatype pyval =
    VNone
  | VStr string
  | VPath string
  | VList "nat list"
  | VConn string
  | VCursor string
  | VTable nat
  | VMethod string

section \<open>The dataframe operations the tables use\<close>

text \<open>A pandas DataFrame as far as the code looks at it: the row index (its name and its
  values) and the ordered, named columns.\<close>

record dataframe =
  index_name :: "string option"
  index_values :: "cell list"
  columns :: "(string \<times> cell list) list"

definition column_names :: "dataframe \<Rightarrow> string list" where
  "column_names df = map fst (columns df)"

text \<open>\<^verbatim>\<open>len(df)\<close>: the number of rows.\<close>

definition len_df :: "dataframe \<Rightarrow> nat" where
  "len_df df = length (index_values df)"

text \<open>\<^verbatim>\<open>list(range(n))\<close>\<close>

definition range_cells :: "nat \<Rightarrow> cell list" where
  "range_cells n = map (\<lambda>i. IntV (int i)) [0..<n]"

text \<open>\<^verbatim>\<open>df.set_index(label, inplace=True)\<close>: the column becomes the index (named after
  it) and leaves the columns; a label that is no column is a KeyError.\<close>

definition set_index :: "string \<Rightarrow> dataframe \<Rightarrow> error + dataframe" where
  "set_index label df =
     (case map_of (columns df) label of
        None \<Rightarrow> Inl KeyError
      | Some vs \<Rightarrow>
          Inr (df\<lparr>index_name := Some label, index_values := vs,
                 columns := filter (\<lambda>c. fst c \<noteq> label) (columns df)\<rparr>))"

text \<open>\<^verbatim>\<open>df.insert(0, label, values, allow_duplicates=False)\<close> with a list of values:
  refused when the label is a column already or when the list has not one value per row.
  A frame with no rows takes its rows from a non-empty list (the other columns are
  filled with missing values).\<close>

definition insert_first :: "string \<Rightarrow> cell list \<Rightarrow> dataframe \<Rightarrow> error + dataframe" where
  "insert_first label vs df =
     (if label \<in> set (column_names df) then Inl ValueError
      else if len_df df = 0 \<and> vs \<noteq> [] then
        Inr (df\<lparr>index_values := range_cells (length vs),
               columns := (label, vs) # map (\<lambda>c. (fst c, replicate (length vs) NoneV)) (columns df)\<rparr>)
      else if length vs \<noteq> len_df df then Inl ValueError
      else Inr (df\<lparr>columns := (label, vs) # columns df\<rparr>))"

section \<open>Tables (table.py)\<close>

text \<open>\<^verbatim>\<open>DBTable\<close>. \<^verbatim>\<open>index_label\<close> has no default and is not set by the constructor:
  \<open>None\<close> is the attribute still missing, and reading it then raises AttributeError.
  \<^verbatim>\<open>database\<close> is a reference to a database object, \<^verbatim>\<open>index\<close> a list of row
  identifiers; both start as Python's \<^verbatim>\<open>None\<close>.\<close>

record dbtable =
  name :: string
  db_name :: pyval
  index_label :: "string option"
  csv_path :: string
  dataframe :: dataframe
  database :: "nat option"
  index :: "cell list option"

definition modify_index :: "dbtable \<Rightarrow> error + dbtable" where
  "modify_index t =
     (case index_label t of
        None \<Rightarrow> Inl AttributeError
      | Some label \<Rightarrow>
          if label \<in> set (column_names (dataframe t)) then
            (case set_index label (dataframe t) of
               Inl e \<Rightarrow> Inl e
             | Inr df \<Rightarrow> Inr (t\<lparr>dataframe := df\<rparr>))
          else
            (let idx = (case index t of
                          None \<Rightarrow> range_cells (len_df (dataframe t))
                        | Some vs \<Rightarrow> vs)
             in case insert_first label idx (dataframe t) of
                  Inl e \<Rightarrow> Inl e
                | Inr df \<Rightarrow>
                    (case set_index label df of
                       Inl e \<Rightarrow> Inl e
                     | Inr df' \<Rightarrow> Inr (t\<lparr>dataframe := df', index := Some idx\<rparr>))))"

text \<open>A frame as \<^verbatim>\<open>read_csv\<close> builds it: column labels are unique and every column has
  one value per row.\<close>

definition wf_frame :: "dataframe \<Rightarrow> bool" where
  "wf_frame df \<longleftrightarrow>
     distinct (column_names df) \<and> list_all (\<lambda>c. length (snd c) = len_df df) (columns df)"

text \<open>A table with a key column \<^verbatim>\<open>DID\<close>, as \<^verbatim>\<open>prepare_tables\<close> labels it.\<close>

definition keyed_table :: dbtable where
  "keyed_table =
     \<lparr>name = ''description'', db_name = VStr ''students'', index_label = Some ''DID'',
      csv_path = ''data/students_description.csv'',
      dataframe = \<lparr>index_name = None, index_values = [IntV 0, IntV 1],
                   columns = [(''DID'', [IntV 10, IntV 20]), (''age'', [IntV 15, IntV 16])]\<rparr>,
      database = None, index = None\<rparr>"

section \<open>The normalisation map (__main__.py)\<close>

text \<open>\<^verbatim>\<open>str.upper\<close> on ASCII text. The map below takes the uppercasing as an argument, so
  what is proved of it holds for the interpreter's own \<^verbatim>\<open>str.upper\<close> as well, which also
  uppercases letters outside ASCII.\<close>

definition upper_char :: "char \<Rightarrow> char" where
  "upper_char c =
     (let n = (of_char c :: nat) in if 97 \<le> n \<and> n \<le> 122 then char_of (n - 32) else c)"

definition ascii_upper :: "string \<Rightarrow> string" where
  "ascii_upper s = map upper_char s"

text \<open>\<^verbatim>\<open>students_str_map(value, column)\<close>. A value that is no string is returned as it is.
  The \<^verbatim>\<open>match\<close> statement has no fall-through: the case \<^verbatim>\<open>"OTHER"\<close> with a column that
  none of its three tests accepts leaves the statement, and the function ends without a
  \<^verbatim>\<open>return\<close>, which yields \<^verbatim>\<open>None\<close>.\<close>

definition students_str_map :: "(string \<Rightarrow> string) \<Rightarrow> cell \<Rightarrow> string \<Rightarrow> cell" where
  "students_str_map upper v column =
     (case v of
        StrV s \<Rightarrow>
          (let u = upper s in
           if u = ''YES'' then IntV 1
           else if u = ''NO'' then IntV 0
           else if u = ''OTHER'' then
             (if column = ''reason'' then IntV 3
              else if column = ''guardian'' then IntV 2
              else if column \<in> {''Mjob'', ''Fjob''} then IntV 4
              else NoneV)
           else if u = ''GP'' then IntV 0
           else if u = ''MS'' then IntV 1
           else if u = ''F'' then IntV 0
           else if u = ''M'' then IntV 1
           else if u = ''U'' then IntV 0
           else if u = ''R'' then IntV 1
           else if u = ''LE3'' then IntV 0
           else if u = ''GT3'' then IntV 1
           else if u = ''T'' then IntV 0
           else if u = ''A'' then IntV 1
           else if u = ''TEACHER'' then IntV 0
           else if u = ''HEALTH'' then IntV 1
           else if u = ''SERVICES'' then IntV 2
           else if u = ''AT_HOME'' then IntV 3
           else if u = ''HOME'' then IntV 0
           else if u = ''REPUTATION'' then IntV 1
           else if u = ''COURSE'' then IntV 2
           else if u = ''MOTHER'' then IntV 0
           else if u = ''FATHER'' then IntV 1
           else StrV s)
      | _ \<Rightarrow> v)"

text \<open>The codes the specification lists for the keys other than \<^verbatim>\<open>OTHER\<close>.\<close>

definition listed_codes :: "(string \<times> int) list" where
  "listed_codes =
     [(''YES'', 1), (''NO'', 0), (''GP'', 0), (''MS'', 1), (''F'', 0), (''M'', 1), (''U'', 0),
      (''R'', 1), (''LE3'', 0), (''GT3'', 1), (''T'', 0), (''A'', 1), (''TEACHER'', 0),
      (''HEALTH'', 1), (''SERVICES'', 2), (''AT_HOME'', 3), (''HOME'', 0), (''REPUTATION'', 1),
      (''COURSE'', 2), (''MOTHER'', 0), (''FATHER'', 1)]"

section \<open>The import scanner (import_csv.py)\<close>

text \<open>\<^verbatim>\<open>DBTable(name, db_name, csv_path)\<close>: the dataclass constructor, whose
  \<^verbatim>\<open>__post_init__\<close> loads the frame at once. \<^verbatim>\<open>pd.read_csv(path, sep=";")\<close> is an argument:
  what the parser returns for the file at a path, or the error it raises. Until the frame is
  loaded the attribute does not exist; the empty frame stands for it and is never seen,
  since loading either replaces it or fails the construction.\<close>

definition csv_to_dataframe :: "(string \<Rightarrow> error + dataframe) \<Rightarrow> dbtable \<Rightarrow> error + dbtable" where
  "csv_to_dataframe read_csv t =
     (case read_csv (csv_path t) of
        Inl e \<Rightarrow> Inl e
      | Inr df \<Rightarrow> Inr (t\<lparr>dataframe := df\<rparr>))"

definition new_DBTable ::
  "(string \<Rightarrow> error + dataframe) \<Rightarrow> string \<Rightarrow> string \<Rightarrow> string \<Rightarrow> error + dbtable" where
  "new_DBTable read_csv table_name database_name path =
     csv_to_dataframe read_csv
       \<lparr>name = table_name, db_name = VStr database_name, index_label = None, csv_path = path,
        dataframe = \<lparr>index_name = None, index_values = [], columns = []\<rparr>,
        database = None, index = None\<rparr>"

text \<open>Shell-style matching of a file name against a pattern of literal characters and
  \<^verbatim>\<open>*\<close> (the only wildcard the scanner's pattern has).\<close>

fun fnmatch :: "string \<Rightarrow> string \<Rightarrow> bool" where
  "fnmatch [] s = (s = [])"
| "fnmatch (p # ps) [] = (p = CHR ''*'' \<and> fnmatch ps [])"
| "fnmatch (p # ps) (c # cs) =
     (if p = CHR ''*'' then fnmatch ps (c # cs) \<or> fnmatch (p # ps) cs
      else p = c \<and> fnmatch ps cs)"

text \<open>\<^verbatim>\<open>glob\<close> leaves out the names that start with a dot when the pattern does not.\<close>

definition is_hidden :: "string \<Rightarrow> bool" where
  "is_hidden n = (case n of [] \<Rightarrow> False | c # _ \<Rightarrow> c = CHR ''.'')"

text \<open>\<^verbatim>\<open>glob(f"{data_folder}/*_*.csv")\<close> over the entries of the folder, in the order the
  system lists them.\<close>

definition glob_csv :: "string list \<Rightarrow> string list" where
  "glob_csv entries = filter (\<lambda>n. \<not> is_hidden n \<and> fnmatch ''*_*.csv'' n) entries"

text \<open>\<^verbatim>\<open>str.rfind\<close> for one character, and \<^verbatim>\<open>Path.stem\<close>: the name up to its last dot,
  when that dot is neither the first nor the last character.\<close>

fun rfind :: "char \<Rightarrow> string \<Rightarrow> nat option" where
  "rfind c [] = None"
| "rfind c (x # xs) =
     (case rfind c xs of
        Some i \<Rightarrow> Some (Suc i)
      | None \<Rightarrow> if x = c then Some 0 else None)"

definition stem :: "string \<Rightarrow> string" where
  "stem n =
     (case rfind (CHR ''.'') n of
        None \<Rightarrow> n
      | Some i \<Rightarrow> if 0 < i \<and> i < length n - 1 then take i n else n)"

text \<open>\<^verbatim>\<open>s.split(c)\<close>: the pieces between all occurrences of the separator.\<close>

fun split_on :: "char \<Rightarrow> string \<Rightarrow> string list" where
  "split_on c [] = [[]]"
| "split_on c (x # xs) =
     (if x = c then [] # split_on c xs
      else (case split_on c xs of
              [] \<Rightarrow> [[x]]
            | p # ps \<Rightarrow> (x # p) # ps))"

text \<open>A Python dict as an association list in insertion order: assigning to a key that is
  present replaces its value in place, a new key goes to the end.\<close>

fun dict_set :: "'k \<Rightarrow> 'v \<Rightarrow> ('k \<times> 'v) list \<Rightarrow> ('k \<times> 'v) list" where
  "dict_set k v [] = [(k, v)]"
| "dict_set k v (e # d) = (if fst e = k then (k, v) # d else e # dict_set k v d)"

text \<open>The loop of \<^verbatim>\<open>gather_csv_paths\<close>. Unpacking the split into two names raises
  ValueError unless there are exactly two pieces.\<close>

fun gather_loop ::
  "(string \<Rightarrow> error + dataframe) \<Rightarrow> string \<Rightarrow> string list \<Rightarrow> (string \<times> dbtable) list \<Rightarrow>
   error + (string \<times> dbtable) list" where
  "gather_loop read_csv data_folder [] import_dict = Inr import_dict"
| "gather_loop read_csv data_folder (csv # rest) import_dict =
     (let total_name = stem csv in
      case split_on (CHR ''_'') total_name of
        [database_name, table_name] \<Rightarrow>
          (case new_DBTable read_csv table_name database_name (data_folder @ ''/'' @ csv) of
             Inl e \<Rightarrow> Inl e
           | Inr t \<Rightarrow> gather_loop read_csv data_folder rest (dict_set total_name t import_dict))
      | _ \<Rightarrow> Inl ValueError)"

definition gather_csv_paths ::
  "(string \<Rightarrow> error + dataframe) \<Rightarrow> string list \<Rightarrow> string \<Rightarrow> error + (string \<times> dbtable) list" where
  "gather_csv_paths read_csv entries data_folder =
     gather_loop read_csv data_folder (glob_csv entries) []"

text \<open>A parser result for examples: every file holds one column \<^verbatim>\<open>age\<close> with two rows.\<close>

definition two_rows :: dataframe where
  "two_rows = \<lparr>index_name = None, index_values = [IntV 0, IntV 1],
               columns = [(''age'', [IntV 15, IntV 16])]\<rparr>"

definition read_two_rows :: "string \<Rightarrow> error + dataframe" where
  "read_two_rows path = Inr two_rows"

section \<open>CSV files (pandas)\<close>

text \<open>Decimal numerals, as Python prints an integer and as the parser reads one.\<close>

fun show_nat :: "nat \<Rightarrow> string" where
  "show_nat n =
     (if n < 10 then [char_of (48 + n)]
      else show_nat (n div 10) @ [char_of (48 + n mod 10)])"

declare show_nat.simps [simp del]

definition show_int :: "int \<Rightarrow> string" where
  "show_int i = (if i < 0 then CHR ''-'' # show_nat (nat (- i)) else show_nat (nat i))"

definition is_digit :: "char \<Rightarrow> bool" where
  "is_digit c \<longleftrightarrow> 48 \<le> (of_char c :: nat) \<and> (of_char c :: nat) \<le> 57"

definition read_nat :: "string \<Rightarrow> nat" where
  "read_nat s = foldl (\<lambda>a c. 10 * a + (of_char c - 48)) 0 s"

definition parse_int :: "string \<Rightarrow> int option" where
  "parse_int s =
     (case s of
        [] \<Rightarrow> None
      | c # cs \<Rightarrow>
          if c = CHR ''-'' then
            (if cs \<noteq> [] \<and> list_all is_digit cs then Some (- int (read_nat cs)) else None)
          else if list_all is_digit s then Some (int (read_nat s)) else None)"

text \<open>The texts \<^verbatim>\<open>read_csv\<close> takes for a missing value by default.\<close>

definition na_values :: "string list" where
  "na_values =
     ['''', ''#N/A'', ''#N/A N/A'', ''#NA'', ''-1.#IND'', ''-1.#QNAN'', ''-NaN'', ''-nan'',
      ''1.#IND'', ''1.#QNAN'', ''<NA>'', ''N/A'', ''NA'', ''NULL'', ''NaN'', ''None'', ''n/a'',
      ''nan'', ''null'']"

text \<open>A field read as a cell, and a cell written as a field. A cell is an integer, a
  missing value or a text here; what pandas reads as a float or a truth value stays the
  text it was, and a missing value is written as the empty field. Nothing below depends on
  what a cell holds, only on how many there are.\<close>

definition parse_cell :: "string \<Rightarrow> cell" where
  "parse_cell f =
     (if f \<in> set na_values then NoneV
      else case parse_int f of Some i \<Rightarrow> IntV i | None \<Rightarrow> StrV f)"

definition render_cell :: "cell \<Rightarrow> string" where
  "render_cell v = (case v of IntV i \<Rightarrow> show_int i | StrV s \<Rightarrow> s | NoneV \<Rightarrow> [])"

text \<open>A delimited text file, as the reader's tokenizer and the \<^verbatim>\<open>csv\<close> writer see it: the
  delimiter its fields are separated by, and its records, one list of fields for each line
  that is not blank, the header first. Quoting is theirs: a field is the text it stands
  for.\<close>

record csv_file =
  delimiter :: char
  records :: "string list list"

text \<open>The fields of a record joined by the delimiter, and the records of a file as read with
  a separator: its own when that is the file's delimiter, and otherwise what its lines split
  into at the other separator.\<close>

fun join_fields :: "char \<Rightarrow> string list \<Rightarrow> string" where
  "join_fields d [] = []"
| "join_fields d [f] = f"
| "join_fields d (f # g # fs) = f @ d # join_fields d (g # fs)"

definition tokens :: "char \<Rightarrow> csv_file \<Rightarrow> string list list" where
  "tokens sep f =
     (if sep = delimiter f then records f
      else map (\<lambda>r. split_on sep (join_fields (delimiter f) r)) (records f))"

text \<open>The column labels \<^verbatim>\<open>read_csv\<close> makes of a header line. An empty header field at
  position \<open>i\<close> becomes \<^verbatim>\<open>Unnamed: i\<close>. Then the labels are made unique, those that were given
  first and those that were made up after them: a label met before gets the suffix \<^verbatim>\<open>.c\<close>,
  where the count \<open>c\<close> starts at the number of times the label was met and goes up until the
  suffixed label is none of the header's. \<open>fresh_count\<close> is that search; it ends within as
  many steps as the header has labels, which is the bound it is given.\<close>

definition unnamed :: "nat \<Rightarrow> string" where
  "unnamed i = ''Unnamed: '' @ show_nat i"

definition fill_unnamed :: "string list \<Rightarrow> string list" where
  "fill_unnamed header =
     map (\<lambda>i. if header ! i = [] then unnamed i else header ! i) [0..<length header]"

definition suffixed :: "string \<Rightarrow> nat \<Rightarrow> string" where
  "suffixed col c = col @ ''.'' @ show_nat c"

definition fresh_count :: "string list \<Rightarrow> string \<Rightarrow> nat \<Rightarrow> nat" where
  "fresh_count names col c =
     (case find (\<lambda>j. suffixed col j \<notin> set names) [c ..< c + length names + 1] of
        Some j \<Rightarrow> j
      | None \<Rightarrow> c + length names + 1)"

fun mangle_step ::
  "nat \<Rightarrow> string list \<times> (string \<Rightarrow> nat) \<Rightarrow> string list \<times> (string \<Rightarrow> nat)" where
  "mangle_step i (names, counts) =
     (let col = names ! i; c = counts col in
      if c = 0 then (names, counts(col := 1))
      else (let j = fresh_count names col c; new = suffixed col j in
            (names[i := new], counts(col := j + 1, new := 1))))"

definition mangle :: "string list \<Rightarrow> string list" where
  "mangle header =
     (let given = filter (\<lambda>i. header ! i \<noteq> []) [0..<length header];
          made_up = filter (\<lambda>i. header ! i = []) [0..<length header]
      in fst (fold mangle_step (given @ made_up) (fill_unnamed header, \<lambda>_. 0)))"

text \<open>The files there are, by path.\<close>

type_synonym files = "string \<rightharpoonup> csv_file"

text \<open>\<^verbatim>\<open>pd.read_csv(path, sep=separator)\<close>, by its documented behaviour. A missing file
  and a file with no line to take the header from are errors. The table is as wide as the
  header, or as the first row when that is wider; a later row that is wider still is an
  error, a shorter one is filled up with missing values. When the first row has one field
  more than the header, its first column is the index, without a name; otherwise the rows
  are numbered from 0. Two or more fields in excess make a multi-level index in pandas,
  which the frame here does not hold: such a file is refused.\<close>

definition pd_read_csv :: "files \<Rightarrow> string \<Rightarrow> char \<Rightarrow> error + dataframe" where
  "pd_read_csv fs path sep =
     (case fs path of
        None \<Rightarrow> Inl FileNotFoundError
      | Some f \<Rightarrow>
          (case tokens sep f of
             [] \<Rightarrow> Inl EmptyDataError
           | header # rows \<Rightarrow>
               (let k = length header;
                    width = (case rows of [] \<Rightarrow> k | r # _ \<Rightarrow> max k (length r))
                in if list_ex (\<lambda>r. width < length r) rows \<or> k + 1 < width then Inl ParserError
                   else
                     (let padded = map (\<lambda>r. r @ replicate (width - length r) []) rows;
                          body = map (drop (width - k)) padded;
                          names = mangle header
                      in Inr \<lparr>index_name = None,
                              index_values =
                                (if width = k + 1 then map (\<lambda>r. parse_cell (hd r)) padded
                                 else range_cells (length rows)),
                              columns =
                                map (\<lambda>j. (names ! j, map (\<lambda>r. parse_cell (r ! j)) body))
                                  [0..<k]\<rparr>))))"

text \<open>\<^verbatim>\<open>df.to_csv(sep=separator, path_or_buf=path)\<close>: the header line is the name of the
  index (empty when it has none) followed by the column labels; each row is its index value
  followed by its cells. Every line written starts with the index, so none of them is
  blank.\<close>

definition pd_to_csv :: "char \<Rightarrow> dataframe \<Rightarrow> csv_file" where
  "pd_to_csv sep df =
     \<lparr>delimiter = sep,
      records =
        ((case index_name df of None \<Rightarrow> [] | Some n \<Rightarrow> n) # column_names df) #
        map (\<lambda>i. render_cell (index_values df ! i) #
                  map (\<lambda>c. render_cell (snd c ! i)) (columns df))
          [0..<len_df df]\<rparr>"

text \<open>\<^verbatim>\<open>DBTable.csv_to_dataframe(separator)\<close> on the files there are is \<open>csv_to_dataframe\<close>
  above with this reader; \<^verbatim>\<open>DBTable.dataframe_to_csv(separator)\<close> writes the table's frame
  to the table's own path. Both take \<^verbatim>\<open>";"\<close> when the separator is left out.\<close>

definition read_with :: "files \<Rightarrow> char \<Rightarrow> string \<Rightarrow> error + dataframe" where
  "read_with fs separator path = pd_read_csv fs path separator"

definition dataframe_to_csv :: "char \<Rightarrow> dbtable \<Rightarrow> files \<Rightarrow> files" where
  "dataframe_to_csv separator t fs = fs(csv_path t \<mapsto> pd_to_csv separator (dataframe t))"

definition default_separator :: char where
  "default_separator = CHR '';''"

text \<open>A folder with one file of two columns and two rows, and a table on it, loaded and not
  loaded yet.\<close>

definition loaded_table :: dbtable where
  "loaded_table =
     \<lparr>name = ''math'', db_name = VStr ''school'', index_label = None,
      csv_path = ''/data/school_math.csv'',
      dataframe = \<lparr>index_name = None, index_values = [IntV 0, IntV 1],
                   columns = [(''age'', [IntV 15, IntV 16]),
                              (''sex'', [StrV ''F'', StrV ''M''])]\<rparr>,
      database = None, index = None\<rparr>"

definition example_files :: files where
  "example_files =
     [''/data/school_math.csv'' \<mapsto>
        \<lparr>delimiter = CHR '';'',
         records = [[''age'', ''sex''], [''15'', ''F''], [''16'', ''M'']]\<rparr>]"


section \<open>Databases (database.py)\<close>

text \<open>A stored relation: its named columns, the index column first.\<close>

type_synonym relation = "(string \<times> cell list) list"

text \<open>Everything the database code reads and changes. Tables and databases are objects,
  held by address, so that a change made through one reference is seen through every other:
  \<^item> \<open>tables_of\<close>: the table object at an address;
  \<^item> \<open>databases\<close>: the instance dictionary of the \<^verbatim>\<open>Database\<close> object at an address, and
    \<open>next_db\<close>, the address the next constructed \<^verbatim>\<open>Database\<close> gets;
  \<^item> \<open>dirs\<close>: the folders that exist;
  \<^item> \<open>sqlite\<close>: for each store file (by path) the tables it holds; SQLite compares names
    without regard to the case of ASCII letters, so a table is kept under its name in lower
    case, as the name it was created with and its relation; a file that does not exist yet
    holds none, and connecting to it always succeeds;
  \<^item> \<open>ic_log\<close>: the messages printed through \<^verbatim>\<open>ic\<close>, oldest first.\<close>

record world =
  tables_of :: "nat \<Rightarrow> dbtable"
  databases :: "nat \<Rightarrow> (string \<rightharpoonup> pyval)"
  next_db :: nat
  dirs :: "string set"
  sqlite :: "string \<Rightarrow> (string \<rightharpoonup> string \<times> relation)"
  ic_log :: "string list"

text \<open>The attributes every \<^verbatim>\<open>Database\<close> instance has through its class: the methods and
  the property the class defines, and the names every Python 3.11 object inherits.\<close>

definition Database_methods :: "string list" where
  "Database_methods =
     [''__init__'', ''__repr__'', ''disconnect'', ''connect'', ''add_table'', ''add_tables'',
      ''show_tables'', ''add_table_to_database'']"

definition Database_properties :: "string list" where
  "Database_properties = [''table_names'']"

definition object_attrs :: "string list" where
  "object_attrs =
     [''__class__'', ''__delattr__'', ''__dict__'', ''__dir__'', ''__doc__'', ''__eq__'',
      ''__format__'', ''__ge__'', ''__getattribute__'', ''__getstate__'', ''__gt__'',
      ''__hash__'', ''__init_subclass__'', ''__le__'', ''__lt__'', ''__module__'', ''__ne__'',
      ''__new__'', ''__reduce__'', ''__reduce_ex__'', ''__setattr__'', ''__sizeof__'',
      ''__str__'', ''__subclasshook__'', ''__weakref__'']"

definition class_attrs :: "string list" where
  "class_attrs = Database_methods @ Database_properties @ object_attrs"

text \<open>\<^verbatim>\<open>hasattr(self, n)\<close> and reading \<^verbatim>\<open>self.n\<close>: the instance dictionary first, then
  the class.\<close>

definition hasattr_db :: "(string \<rightharpoonup> pyval) \<Rightarrow> string \<Rightarrow> bool" where
  "hasattr_db d n \<longleftrightarrow> d n \<noteq> None \<or> n \<in> set class_attrs"

definition getattr_db :: "(string \<rightharpoonup> pyval) \<Rightarrow> string \<Rightarrow> error + pyval" where
  "getattr_db d n =
     (case d n of
        Some v \<Rightarrow> Inr v
      | None \<Rightarrow> if n \<in> set class_attrs then Inr (VMethod n) else Inl AttributeError)"

text \<open>\<^verbatim>\<open>object.__setattr__(self, n, v)\<close> for a value that is a table object: a property
  without a setter and \<^verbatim>\<open>__weakref__\<close> cannot be assigned (AttributeError), \<^verbatim>\<open>__class__\<close>
  and \<^verbatim>\<open>__dict__\<close> refuse a value of that type (TypeError); every other name goes into the
  instance dictionary, where it shadows a method of the same name.\<close>

definition setattr_db :: "string \<Rightarrow> pyval \<Rightarrow> (string \<rightharpoonup> pyval) \<Rightarrow> error + (string \<rightharpoonup> pyval)" where
  "setattr_db n v d =
     (if n \<in> set Database_properties \<or> n = ''__weakref__'' then Inl AttributeError
      else if n = ''__class__'' \<or> n = ''__dict__'' then Inl TypeError
      else Inr (d(n \<mapsto> v)))"

definition update_table :: "nat \<Rightarrow> (dbtable \<Rightarrow> dbtable) \<Rightarrow> world \<Rightarrow> world" where
  "update_table table f w = w\<lparr>tables_of := (tables_of w)(table := f (tables_of w table))\<rparr>"

definition update_db :: "nat \<Rightarrow> ((string \<rightharpoonup> pyval) \<Rightarrow> (string \<rightharpoonup> pyval)) \<Rightarrow> world \<Rightarrow> world" where
  "update_db self f w = w\<lparr>databases := (databases w)(self := f (databases w self))\<rparr>"

text \<open>Statements in sequence. A statement returns the error it raised, if any, and the
  world as it then is: what was changed before an exception stays changed.\<close>

definition and_then ::
  "(world \<Rightarrow> error option \<times> world) \<Rightarrow> (world \<Rightarrow> error option \<times> world) \<Rightarrow>
   world \<Rightarrow> error option \<times> world" where
  "and_then f g w = (case f w of (None, w') \<Rightarrow> g w' | (Some e, w') \<Rightarrow> (Some e, w'))"

text \<open>\<^verbatim>\<open>Path.parent\<close> of a resolved path, and joining a folder and a file name.\<close>

definition parent_path :: "string \<Rightarrow> string" where
  "parent_path p =
     (case rfind (CHR ''/'') p of
        None \<Rightarrow> ''.''
      | Some i \<Rightarrow> if i = 0 then ''/'' else take i p)"

definition join_path :: "string \<Rightarrow> string \<Rightarrow> string" where
  "join_path folder file = folder @ ''/'' @ file"

text \<open>\<^verbatim>\<open>Database(name, folder=None, if_exists="replace")\<close>: a new object, its attributes in
  the order \<^verbatim>\<open>__init__\<close> assigns them. An argument left out is \<open>None\<close> here and takes its
  default. A folder given as a plain string has no \<^verbatim>\<open>is_dir\<close> (AttributeError). The folder
  exists afterwards, and \<^verbatim>\<open>connect\<close> opens the store file in it. Paths are taken as already
  resolved.\<close>

definition Database_init ::
  "string \<Rightarrow> pyval \<Rightarrow> string option \<Rightarrow> world \<Rightarrow> (error + nat) \<times> world" where
  "Database_init nm folder if_exists w =
     (let self = next_db w;
          w0 = w\<lparr>next_db := Suc self\<rparr>;
          attrs = [''name'' \<mapsto> VStr nm, ''tables'' \<mapsto> VList [], ''folder'' \<mapsto> folder];
          folder' = (if folder = VNone then VPath ''../data'' else folder);
          attrs' = attrs(''folder'' \<mapsto> folder')
      in case folder' of
           VPath p \<Rightarrow>
             (let path = join_path p (nm @ ''.db'');
                  attrs'' = attrs'(''path'' \<mapsto> VPath path,
                                   ''connection'' \<mapsto> VConn path,
                                   ''cursor'' \<mapsto> VCursor path,
                                   ''if_exists'' \<mapsto>
                                      VStr (case if_exists of None \<Rightarrow> ''replace'' | Some s \<Rightarrow> s))
              in (Inr self,
                  w0\<lparr>databases := (databases w0)(self := attrs''), dirs := insert p (dirs w0)\<rparr>))
         | _ \<Rightarrow> (Inl AttributeError, w0\<lparr>databases := (databases w0)(self := attrs')\<rparr>))"

text \<open>The property \<^verbatim>\<open>table_names\<close>: the names of the tables in the owned list. Anything
  but a list there cannot be iterated for tables.\<close>

definition table_names :: "nat \<Rightarrow> world \<Rightarrow> error + string list" where
  "table_names self w =
     (case getattr_db (databases w self) ''tables'' of
        Inl e \<Rightarrow> Inl e
      | Inr (VList ts) \<Rightarrow> Inr (map (\<lambda>t. name (tables_of w t)) ts)
      | Inr _ \<Rightarrow> Inl TypeError)"

text \<open>How SQLite compares the names of tables and columns: ASCII letters in lower case.\<close>

definition lower_char :: "char \<Rightarrow> char" where
  "lower_char c =
     (let n = (of_char c :: nat) in if 65 \<le> n \<and> n \<le> 90 then char_of (n + 32) else c)"

definition sql_fold :: "string \<Rightarrow> string" where
  "sql_fold s = map lower_char s"

text \<open>What \<^verbatim>\<open>CREATE TABLE\<close> accepts: a table name outside the reserved \<^verbatim>\<open>sqlite_\<close> names and
  columns whose names differ by more than case. What \<^verbatim>\<open>INSERT\<close> accepts: integers of 64
  bits.\<close>

definition sql_names_ok :: "string \<Rightarrow> (string \<times> cell list) list \<Rightarrow> bool" where
  "sql_names_ok nm r \<longleftrightarrow>
     take 7 (sql_fold nm) \<noteq> ''sqlite_'' \<and> distinct (map (\<lambda>c. sql_fold (fst c)) r)"

definition sql_storable :: "cell \<Rightarrow> bool" where
  "sql_storable v = (case v of IntV i \<Rightarrow> - (2 ^ 63) \<le> i \<and> i < 2 ^ 63 | _ \<Rightarrow> True)"

definition sql_rows_ok :: "(string \<times> cell list) list \<Rightarrow> bool" where
  "sql_rows_ok r = list_all (\<lambda>c. list_all sql_storable (snd c)) r"

text \<open>\<^verbatim>\<open>DataFrame.to_sql(name, con, if_exists, index_label)\<close> on a store, by the documented
  behaviour of pandas and SQLite. The relation written is the index column under
  \<^verbatim>\<open>index_label\<close> followed by the frame's columns.
  \<^item> pandas refuses (ValueError) an \<^verbatim>\<open>if_exists\<close> that is none of the three policies, a table
    or column name that is empty or holds a NUL character, and an index label that is also
    a column or a column label that occurs twice.
  \<^item> pandas then asks whether a table of exactly that name exists. If so, \<^verbatim>\<open>fail\<close> raises
    ValueError, \<^verbatim>\<open>replace\<close> drops the table and creates it anew, and \<^verbatim>\<open>append\<close> inserts the
    new rows into the columns the table has (every new column must be one of them). If not,
    the table is created; SQLite refuses that when it holds the table under a name that
    differs in case only.
  \<^item> a write that raises is taken to leave the store as it was; nothing below speaks of the
    store after such a write.\<close>

definition sql_relation :: "string \<Rightarrow> dataframe \<Rightarrow> relation" where
  "sql_relation label df = (label, index_values df) # columns df"

definition append_rows :: "relation \<Rightarrow> relation \<Rightarrow> nat \<Rightarrow> relation" where
  "append_rows old new n =
     map (\<lambda>c. (fst c, snd c @ (case map_of (map (\<lambda>d. (sql_fold (fst d), snd d)) new)
                                          (sql_fold (fst c)) of
                                  Some vs \<Rightarrow> vs
                                | None \<Rightarrow> replicate n NoneV))) old"

definition to_sql ::
  "dataframe \<Rightarrow> string \<Rightarrow> pyval \<Rightarrow> pyval \<Rightarrow> string \<Rightarrow>
   (string \<Rightarrow> (string \<rightharpoonup> string \<times> relation)) \<Rightarrow>
   error + (string \<Rightarrow> (string \<rightharpoonup> string \<times> relation))" where
  "to_sql df nm con if_exists label store =
     (if if_exists \<noteq> VStr ''fail'' \<and> if_exists \<noteq> VStr ''replace'' \<and> if_exists \<noteq> VStr ''append''
      then Inl ValueError
      else case con of
        VConn path \<Rightarrow>
          (let new = sql_relation label df;
               key = sql_fold nm;
               create = (if sql_names_ok nm new \<and> sql_rows_ok new
                         then Inr (store(path := (store path)(key \<mapsto> (nm, new))))
                         else Inl SqlError)
           in if list_ex (\<lambda>s. s = [] \<or> CHR 0x00 \<in> set s) (nm # map fst new) \<or>
                 \<not> distinct (map fst new)
              then Inl ValueError
              else case store path key of
                     None \<Rightarrow> create
                   | Some (k, old) \<Rightarrow>
                       if k \<noteq> nm then Inl SqlError
                       else if if_exists = VStr ''fail'' then Inl ValueError
                       else if if_exists = VStr ''replace'' then create
                       else if set (map (\<lambda>c. sql_fold (fst c)) new) \<subseteq>
                                 set (map (\<lambda>c. sql_fold (fst c)) old) \<and> sql_rows_ok new
                       then Inr (store(path := (store path)
                                   (key \<mapsto> (nm, append_rows old new (len_df df)))))
                       else Inl SqlError)
      | _ \<Rightarrow> Inl SqlError)"

text \<open>\<^verbatim>\<open>Database.add_table_to_database\<close>: the arguments are read in the order written;
  a table whose \<^verbatim>\<open>index_label\<close> was never set has no such attribute.\<close>

definition add_table_to_database :: "nat \<Rightarrow> nat \<Rightarrow> world \<Rightarrow> error option \<times> world" where
  "add_table_to_database self table w =
     (let t = tables_of w table; d = databases w self in
      case getattr_db d ''connection'' of
        Inl e \<Rightarrow> (Some e, w)
      | Inr con \<Rightarrow>
          (case getattr_db d ''if_exists'' of
             Inl e \<Rightarrow> (Some e, w)
           | Inr if_exists \<Rightarrow>
               (case index_label t of
                  None \<Rightarrow> (Some AttributeError, w)
                | Some label \<Rightarrow>
                    (case to_sql (dataframe t) (name t) con if_exists label (sqlite w) of
                       Inl e \<Rightarrow> (Some e, w)
                     | Inr store \<Rightarrow> (None, w\<lparr>sqlite := store\<rparr>)))))"

text \<open>The statements of \<^verbatim>\<open>Database.add_table\<close>, one definition each.\<close>

text \<open>\<^verbatim>\<open>table.database = self; table.db_name = self.name\<close>\<close>

definition set_owner :: "nat \<Rightarrow> nat \<Rightarrow> world \<Rightarrow> error option \<times> world" where
  "set_owner self table w =
     (let w1 = update_table table (\<lambda>t. t\<lparr>database := Some self\<rparr>) w in
      case getattr_db (databases w1 self) ''name'' of
        Inl e \<Rightarrow> (Some e, w1)
      | Inr v \<Rightarrow> (None, update_table table (\<lambda>t. t\<lparr>db_name := v\<rparr>) w1))"

text \<open>\<^verbatim>\<open>self.tables.append(table)\<close>: only a list has \<^verbatim>\<open>append\<close>.\<close>

definition append_table :: "nat \<Rightarrow> nat \<Rightarrow> world \<Rightarrow> error option \<times> world" where
  "append_table self table w =
     (case getattr_db (databases w self) ''tables'' of
        Inl e \<Rightarrow> (Some e, w)
      | Inr (VList ts) \<Rightarrow> (None, update_db self (\<lambda>d. d(''tables'' \<mapsto> VList (ts @ [table]))) w)
      | Inr _ \<Rightarrow> (Some AttributeError, w))"

text \<open>\<^verbatim>\<open>if hasattr(self, table.name): ic(f"changing {table.name} to new value.")\<close>\<close>

definition warn_existing :: "nat \<Rightarrow> nat \<Rightarrow> world \<Rightarrow> error option \<times> world" where
  "warn_existing self table w =
     (let n = name (tables_of w table) in
      if hasattr_db (databases w self) n
      then (None, w\<lparr>ic_log := ic_log w @ [''changing '' @ n @ '' to new value.'']\<rparr>)
      else (None, w))"

text \<open>\<^verbatim>\<open>self.__setattr__(table.name, table)\<close>: an instance attribute \<^verbatim>\<open>__setattr__\<close> (a
  table bound under that name) would be looked up first, and is not callable.\<close>

definition bind_table :: "nat \<Rightarrow> nat \<Rightarrow> world \<Rightarrow> error option \<times> world" where
  "bind_table self table w =
     (let d = databases w self; n = name (tables_of w table) in
      if d ''__setattr__'' \<noteq> None then (Some TypeError, w)
      else case setattr_db n (VTable table) d of
             Inl e \<Rightarrow> (Some e, w)
           | Inr d' \<Rightarrow> (None, update_db self (\<lambda>_. d') w))"

text \<open>\<^verbatim>\<open>self.add_table_to_database(table)\<close>: likewise not callable once a table is bound
  under the method's name.\<close>

definition store_table :: "nat \<Rightarrow> nat \<Rightarrow> world \<Rightarrow> error option \<times> world" where
  "store_table self table w =
     (if databases w self ''add_table_to_database'' \<noteq> None then (Some TypeError, w)
      else add_table_to_database self table w)"

definition add_table :: "nat \<Rightarrow> nat \<Rightarrow> world \<Rightarrow> error option \<times> world" where
  "add_table self table =
     and_then (set_owner self table)
       (and_then (append_table self table)
          (and_then (warn_existing self table)
             (and_then (bind_table self table)
                (store_table self table))))"

text \<open>\<^verbatim>\<open>DBTable.add\<close>: \<^verbatim>\<open>self.database.add_table(self)\<close>. \<^verbatim>\<open>None\<close> has no
  \<^verbatim>\<open>add_table\<close>; on a database, a table bound under the name \<^verbatim>\<open>add_table\<close> is found before
  the method and is not callable.\<close>

definition add :: "nat \<Rightarrow> world \<Rightarrow> error option \<times> world" where
  "add table w =
     (case database (tables_of w table) of
        None \<Rightarrow> (Some AttributeError, w)
      | Some db \<Rightarrow>
          if databases w db ''add_table'' \<noteq> None then (Some TypeError, w)
          else add_table db table w)"

text \<open>The loop of \<^verbatim>\<open>DatabaseGenerator.create_from_dict\<close> over the values of the input
  mapping. \<open>db_dict\<close> is the whole mapping (key and table address, in insertion order):
  \<^verbatim>\<open>db_dict.copy().popitem()\<close> is its last item, and raises KeyError on an empty mapping
  (which the loop over its values never meets). A table's \<^verbatim>\<open>db_name\<close> is a string unless
  an earlier registration replaced it by a table object, which cannot be a dictionary key
  (TypeError).\<close>

fun create_loop ::
  "(string \<times> nat) list \<Rightarrow> nat list \<Rightarrow> (string \<times> nat) list \<Rightarrow> world \<Rightarrow>
   (error + (string \<times> nat) list) \<times> world" where
  "create_loop db_dict [] return_dict w = (Inr return_dict, w)"
| "create_loop db_dict (table # rest) return_dict w =
     (case db_name (tables_of w table) of
        VStr n \<Rightarrow>
          (case map_of return_dict n of
             Some db \<Rightarrow>
               (case add table (update_table table (\<lambda>t. t\<lparr>database := Some db\<rparr>) w) of
                  (Some e, w') \<Rightarrow> (Inl e, w')
                | (None, w') \<Rightarrow> create_loop db_dict rest return_dict w')
           | None \<Rightarrow>
               (if db_dict = [] then (Inl KeyError, w)
                else
                  (let folder = parent_path (csv_path (tables_of w (snd (last db_dict)))) in
                   case Database_init n (VPath folder) None w of
                     (Inl e, w') \<Rightarrow> (Inl e, w')
                   | (Inr db, w') \<Rightarrow>
                       (case getattr_db (databases w' db) ''name'' of
                          Inr (VStr k) \<Rightarrow>
                            (case add table
                                    (update_table table (\<lambda>t. t\<lparr>database := Some db\<rparr>) w') of
                               (Some e, w'') \<Rightarrow> (Inl e, w'')
                             | (None, w'') \<Rightarrow>
                                 create_loop db_dict rest (dict_set k db return_dict) w'')
                        | _ \<Rightarrow> (Inl TypeError, w')))))
      | _ \<Rightarrow> (Inl TypeError, w))"

definition create_from_dict ::
  "(string \<times> nat) list \<Rightarrow> world \<Rightarrow> (error + (string \<times> nat) list) \<times> world" where
  "create_from_dict db_dict w = create_loop db_dict (map snd db_dict) [] w"

section \<open>Example objects\<close>

text \<open>Tables as the pipeline prepares them (the index assigned and labelled \<^verbatim>\<open>ID\<close>), with
  one column \<^verbatim>\<open>age\<close>, and a world that holds seven of them and no database yet.\<close>

definition example_table :: "string \<Rightarrow> string \<Rightarrow> int list \<Rightarrow> dbtable" where
  "example_table db nm ages =
     \<lparr>name = nm, db_name = VStr db, index_label = Some ''ID'',
      csv_path = ''/data/'' @ db @ ''_'' @ nm @ ''.csv'',
      dataframe = \<lparr>index_name = Some ''ID'', index_values = range_cells (length ages),
                   columns = [(''age'', map IntV ages)]\<rparr>,
      database = None, index = Some (range_cells (length ages))\<rparr>"

definition example_tables :: "dbtable list" where
  "example_tables =
     [example_table ''school'' ''math'' [15, 16],
      example_table ''school'' ''math'' [17],
      example_table ''school'' ''portuguese'' [18],
      example_table ''club'' ''members'' [19],
      example_table ''school'' ''connection'' [20],
      example_table ''school'' ''table_names'' [21],
      example_table ''school'' ''tables'' [22]]"

definition example_world :: world where
  "example_world =
     \<lparr>tables_of = (\<lambda>a. if a < length example_tables then example_tables ! a
                         else example_table [] [] []),
      databases = (\<lambda>a. Map.empty), next_db = 0, dirs = {},
      sqlite = (\<lambda>p. Map.empty), ic_log = []\<rparr>"

text \<open>The example world after \<^verbatim>\<open>Database("school", folder)\<close>, and after the same call with
  \<^verbatim>\<open>if_exists="append"\<close>; the database is the object at address 0.\<close>

definition school_world :: world where
  "school_world = snd (Database_init ''school'' (VPath ''/data'') None example_world)"

definition appending_world :: world where
  "appending_world =
     snd (Database_init ''school'' (VPath ''/data'') (Some ''append'') example_world)"

section \<open>The invariant of the generator's loop\<close>

text \<open>What a registration leaves behind, as far as later registrations cannot undo it. For a
  table \<open>t\<close> (as it was in the world \<open>w0\<close>) registered with the database \<open>d\<close>, constructed
  under the name \<open>n\<close> in \<open>folder\<close>, among the tables \<open>seen\<close>:
  \<^item> \<open>t\<close> refers back to \<open>d\<close>, and its \<^verbatim>\<open>db_name\<close> is what \<open>d\<close> had as its \<^verbatim>\<open>name\<close> then: the
    name \<open>n\<close>, or a table named \<^verbatim>\<open>name\<close> registered with \<open>d\<close> before;
  \<^item> the attribute of \<open>d\<close> named like \<open>t\<close> holds a table of that name registered with \<open>d\<close>
    (\<open>t\<close> itself, unless a later table of the same name took its place), and the store file
    of \<open>d\<close> holds under that name the relation of that very table.\<close>

definition registered ::
  "string \<Rightarrow> world \<Rightarrow> nat set \<Rightarrow> world \<Rightarrow> string \<Rightarrow> nat \<Rightarrow> nat \<Rightarrow> bool" where
  "registered folder w0 seen w n d t \<longleftrightarrow>
     database (tables_of w t) = Some d \<and>
     (db_name (tables_of w t) = VStr n \<or>
      (\<exists>x\<in>seen. name (tables_of w0 x) = ''name'' \<and> db_name (tables_of w t) = VTable x)) \<and>
     (\<exists>x\<in>seen. \<exists>label.
        name (tables_of w0 x) = name (tables_of w0 t) \<and>
        database (tables_of w x) = Some d \<and>
        databases w d (name (tables_of w0 t)) = Some (VTable x) \<and>
        index_label (tables_of w0 x) = Some label \<and>
        sqlite w (join_path folder (n @ ''.db'')) (sql_fold (name (tables_of w0 t))) =
          Some (name (tables_of w0 t), sql_relation label (dataframe (tables_of w0 x))))"

text \<open>The owned list of \<open>d\<close> holds every table seen that refers back to \<open>d\<close>, until a table
  named \<^verbatim>\<open>tables\<close> is registered with \<open>d\<close>: its registration appends it to the list and then
  binds the table itself under \<^verbatim>\<open>tables\<close>, in place of the list.\<close>

definition owns_seen :: "world \<Rightarrow> nat set \<Rightarrow> world \<Rightarrow> nat \<Rightarrow> bool" where
  "owns_seen w0 seen w d \<longleftrightarrow>
     (\<exists>ts. databases w d ''tables'' = Some (VList ts) \<and>
           (\<forall>t\<in>seen. database (tables_of w t) = Some d \<longrightarrow> t \<in> set ts)) \<or>
     (\<exists>x\<in>seen. name (tables_of w0 x) = ''tables'' \<and> database (tables_of w x) = Some d \<and>
           databases w d ''tables'' = Some (VTable x))"

text \<open>What holds between the iterations of \<open>create_loop\<close>, started in the world \<open>w0\<close>, once
  the tables \<open>seen\<close> have been handled, with \<open>return_dict\<close> built so far, \<open>w\<close> the world
  reached and \<open>folder\<close> the folder the databases are constructed in:
  \<^item> no table has changed its name, index label, frame or path, and a table not seen has
    its \<^verbatim>\<open>db_name\<close> still;
  \<^item> the keys of \<open>return_dict\<close> are distinct, and its values are the databases constructed
    since the start, in the order constructed;
  \<^item> each of these databases has its connection, on the store file named after its key, and
    the \<^verbatim>\<open>replace\<close> policy; it has its name, or a registered table named \<^verbatim>\<open>name\<close> in its
    place; and it owns the tables seen that refer back to it, in the sense above;
  \<^item> every table seen is registered, in the sense above, with the database kept under its
    database name.\<close>

definition loop_inv ::
  "string \<Rightarrow> world \<Rightarrow> nat set \<Rightarrow> (string \<times> nat) list \<Rightarrow> world \<Rightarrow> bool" where
  "loop_inv folder w0 seen return_dict w \<longleftrightarrow>
     (\<forall>t. name (tables_of w t) = name (tables_of w0 t) \<and>
          index_label (tables_of w t) = index_label (tables_of w0 t) \<and>
          dataframe (tables_of w t) = dataframe (tables_of w0 t) \<and>
          csv_path (tables_of w t) = csv_path (tables_of w0 t)) \<and>
     (\<forall>t. t \<notin> seen \<longrightarrow> db_name (tables_of w t) = db_name (tables_of w0 t)) \<and>
     distinct (map fst return_dict) \<and>
     next_db w0 \<le> next_db w \<and>
     map snd return_dict = [next_db w0 ..< next_db w] \<and>
     (\<forall>e\<in>set return_dict.
          databases w (snd e) ''connection'' = Some (VConn (join_path folder (fst e @ ''.db''))) \<and>
          databases w (snd e) ''if_exists'' = Some (VStr ''replace'') \<and>
          (databases w (snd e) ''name'' = Some (VStr (fst e)) \<or>
           (\<exists>x\<in>seen. name (tables_of w0 x) = ''name'' \<and>
                 databases w (snd e) ''name'' = Some (VTable x))) \<and>
          owns_seen w0 seen w (snd e)) \<and>
     (\<forall>t\<in>seen. \<exists>n d. db_name (tables_of w0 t) = VStr n \<and> map_of return_dict n = Some d \<and>
          registered folder w0 seen w n d t)"


section \<open>The invariant of the label mangling\<close>


section \<open>Index assignment\<close>

lemma set_index_present:
  "label \<in> set (column_names df) \<Longrightarrow>
   \<exists>vs. map_of (columns df) label = Some vs \<and> (label, vs) \<in> set (columns df) \<and>
     set_index label df =
       Inr (df\<lparr>index_name := Some label, index_values := vs,
              columns := filter (\<lambda>c. fst c \<noteq> label) (columns df)\<rparr>)"
  unfolding set_index_def column_names_def
  by (cases "map_of (columns df) label") (auto simp: map_of_eq_None_iff dest: map_of_SomeD)

lemma filter_other_labels:
  "label \<notin> fst ` set cs \<Longrightarrow> filter (\<lambda>c. fst c \<noteq> label) cs = cs"
  by (induction cs) auto

lemma length_range_cells: "length (range_cells n) = n"
  by (simp add: range_cells_def)

lemma modify_index_existing:
  assumes lab: "index_label t = Some label"
    and mem: "label \<in> set (column_names (dataframe t))"
  shows "\<exists>vs. (label, vs) \<in> set (columns (dataframe t)) \<and>
     modify_index t = Inr (t\<lparr>dataframe := (dataframe t)\<lparr>index_name := Some label, index_values := vs,
              columns := filter (\<lambda>c. fst c \<noteq> label) (columns (dataframe t))\<rparr>\<rparr>)"
  using set_index_present [OF mem] lab mem by (auto simp: modify_index_def)

lemma modify_index_fresh:
  assumes lab: "index_label t = Some label"
    and mem: "label \<notin> set (column_names (dataframe t))"
    and len: "length vs = len_df (dataframe t)"
    and idx: "index t = None \<and> vs = range_cells (len_df (dataframe t)) \<or> index t = Some vs"
  shows "modify_index t =
     Inr (t\<lparr>dataframe := (dataframe t)\<lparr>index_name := Some label, index_values := vs\<rparr>,
            index := Some vs\<rparr>)"
proof -
  let ?df = "dataframe t"
  have ins: "insert_first label vs ?df = Inr (?df\<lparr>columns := (label, vs) # columns ?df\<rparr>)"
    using mem len by (auto simp: insert_first_def)
  have flt: "filter (\<lambda>c. fst c \<noteq> label) (columns ?df) = columns ?df"
    using mem by (intro filter_other_labels) (simp add: column_names_def)
  have st: "set_index label (?df\<lparr>columns := (label, vs) # columns ?df\<rparr>) =
      Inr (?df\<lparr>index_name := Some label, index_values := vs\<rparr>)"
    by (simp add: set_index_def flt)
  from idx show ?thesis
    using lab mem ins st by (auto simp: modify_index_def Let_def)
qed

text \<open>C1 (as amended). For a table whose \<^verbatim>\<open>index_label\<close> is set, whose frame has unique
  column labels and one value per row in every column, and whose pre-assigned identifier list
  (if any) has one entry per row: \<^verbatim>\<open>modify_index\<close> succeeds twice in a row, the second run
  leaves the regular columns exactly as the first run left them, the index column is not
  among them, and the index is named by the label after either run. When the label named no
  column of the loaded frame the second run changes nothing at all. When it did name one,
  the second run replaces the index values taken from that column by the pre-assigned
  identifiers, or by \<open>0..N-1\<close> when none were assigned.\<close>

theorem modify_index_twice:
  assumes lab: "index_label t = Some label"
    and wf: "wf_frame (dataframe t)"
    and idx: "case index t of None \<Rightarrow> True | Some vs \<Rightarrow> length vs = len_df (dataframe t)"
  shows "\<exists>t1 t2. modify_index t = Inr t1 \<and> modify_index t1 = Inr t2 \<and>
           columns (dataframe t2) = columns (dataframe t1) \<and>
           label \<notin> set (column_names (dataframe t2)) \<and>
           index_name (dataframe t1) = Some label \<and> index_name (dataframe t2) = Some label \<and>
           (if label \<in> set (column_names (dataframe t))
            then index_values (dataframe t2) =
                   (case index t of None \<Rightarrow> range_cells (len_df (dataframe t)) | Some vs \<Rightarrow> vs)
            else t2 = t1)"
proof -
  let ?df = "dataframe t"
  define ids where "ids = (case index t of None \<Rightarrow> range_cells (len_df ?df) | Some vs \<Rightarrow> vs)"
  have len_ids: "length ids = len_df ?df"
    using idx by (auto simp: ids_def length_range_cells split: option.splits)
  show ?thesis
  proof (cases "label \<in> set (column_names ?df)")
    case True
    from modify_index_existing [OF lab True] obtain vs where
      vs: "(label, vs) \<in> set (columns ?df)" and
      one: "modify_index t = Inr (t\<lparr>dataframe := ?df\<lparr>index_name := Some label, index_values := vs,
              columns := filter (\<lambda>c. fst c \<noteq> label) (columns ?df)\<rparr>\<rparr>)" (is "_ = Inr ?t1")
      by blast
    have len_vs: "length vs = len_df ?df"
      using wf vs by (auto simp: wf_frame_def list_all_iff)
    have absent: "label \<notin> set (column_names (dataframe ?t1))"
      by (auto simp: column_names_def)
    have pre: "index ?t1 = None \<and> ids = range_cells (len_df (dataframe ?t1)) \<or> index ?t1 = Some ids"
      using len_vs by (auto simp: ids_def len_df_def split: option.splits)
    have len1: "length ids = len_df (dataframe ?t1)"
      using len_ids len_vs by (simp add: len_df_def)
    have lab1: "index_label ?t1 = Some label"
      using lab by simp
    from modify_index_fresh [OF lab1 absent len1 pre]
    have two: "modify_index ?t1 = Inr (?t1\<lparr>dataframe := (dataframe ?t1)\<lparr>index_name := Some label,
        index_values := ids\<rparr>, index := Some ids\<rparr>)" (is "_ = Inr ?t2")
      by simp
    have "columns (dataframe ?t2) = columns (dataframe ?t1)"
      and "label \<notin> set (column_names (dataframe ?t2))"
      and "index_values (dataframe ?t2) = ids"
      and "index_name (dataframe ?t1) = Some label"
      and "index_name (dataframe ?t2) = Some label"
      by (auto simp: column_names_def)
    with one two True have
      "modify_index t = Inr ?t1 \<and> modify_index ?t1 = Inr ?t2 \<and>
           columns (dataframe ?t2) = columns (dataframe ?t1) \<and>
           label \<notin> set (column_names (dataframe ?t2)) \<and>
           index_name (dataframe ?t1) = Some label \<and> index_name (dataframe ?t2) = Some label \<and>
           (if label \<in> set (column_names (dataframe t))
            then index_values (dataframe ?t2) = ids
            else ?t2 = ?t1)"
      by simp
    then show ?thesis
      unfolding ids_def by blast
  next
    case False
    have pre: "index t = None \<and> ids = range_cells (len_df ?df) \<or> index t = Some ids"
      by (auto simp: ids_def split: option.splits)
    from modify_index_fresh [OF lab False len_ids pre]
    have one: "modify_index t = Inr (t\<lparr>dataframe := ?df\<lparr>index_name := Some label,
        index_values := ids\<rparr>, index := Some ids\<rparr>)" (is "_ = Inr ?t1") .
    have absent: "label \<notin> set (column_names (dataframe ?t1))"
      using False by (simp add: column_names_def)
    have len1: "length ids = len_df (dataframe ?t1)"
      by (simp add: len_df_def)
    have lab1: "index_label ?t1 = Some label"
      using lab by simp
    have pre1: "index ?t1 = None \<and> ids = range_cells (len_df (dataframe ?t1)) \<or> index ?t1 = Some ids"
      by simp
    from modify_index_fresh [OF lab1 absent len1 pre1]
    have two: "modify_index ?t1 = Inr ?t1"
      by simp
    have "index_name (dataframe ?t1) = Some label"
      by simp
    with one two absent False have
      "modify_index t = Inr ?t1 \<and> modify_index ?t1 = Inr ?t1 \<and>
           columns (dataframe ?t1) = columns (dataframe ?t1) \<and>
           label \<notin> set (column_names (dataframe ?t1)) \<and>
           index_name (dataframe ?t1) = Some label \<and> index_name (dataframe ?t1) = Some label \<and>
           (if label \<in> set (column_names (dataframe t))
            then index_values (dataframe ?t1) = ids
            else ?t1 = ?t1)"
      by simp
    then show ?thesis
      unfolding ids_def by blast
  qed
qed

text \<open>The theorem at the table \<open>keyed_table\<close>, whose label names the column \<^verbatim>\<open>DID\<close>.\<close>

theorem modify_index_twice_witness:
  "\<exists>t1 t2. modify_index keyed_table = Inr t1 \<and> modify_index t1 = Inr t2 \<and>
     columns (dataframe t2) = [(''age'', [IntV 15, IntV 16])] \<and>
     index_values (dataframe t2) = [IntV 0, IntV 1]"
  using modify_index_twice [of keyed_table "''DID''"]
  by (auto simp: keyed_table_def wf_frame_def column_names_def len_df_def range_cells_def modify_index_def set_index_def Let_def)

text \<open>C1 as stated fails: on \<open>keyed_table\<close> the first run makes the column \<^verbatim>\<open>DID\<close>
  (values 10, 20) the index, and the second run inserts a fresh column \<^verbatim>\<open>DID\<close> holding
  0, 1 and promotes it, so the key values of the first run are replaced.\<close>

theorem modify_index_not_idempotent:
  "modify_index keyed_table =
     Inr (keyed_table\<lparr>dataframe := \<lparr>index_name = Some ''DID'', index_values = [IntV 10, IntV 20],
            columns = [(''age'', [IntV 15, IntV 16])]\<rparr>\<rparr>) \<and>
   modify_index (keyed_table\<lparr>dataframe := \<lparr>index_name = Some ''DID'', index_values = [IntV 10, IntV 20],
            columns = [(''age'', [IntV 15, IntV 16])]\<rparr>\<rparr>) =
     Inr (keyed_table\<lparr>dataframe := \<lparr>index_name = Some ''DID'', index_values = [IntV 0, IntV 1],
            columns = [(''age'', [IntV 15, IntV 16])]\<rparr>, index := Some [IntV 0, IntV 1]\<rparr>)"
  by (simp add: keyed_table_def modify_index_def set_index_def insert_first_def column_names_def
      len_df_def range_cells_def Let_def)

section \<open>The normalisation map\<close>

lemma upper_other: "ascii_upper ''other'' = ''OTHER''"
  by code_simp

lemma upper_mixed: "ascii_upper ''At_Home'' = ''AT_HOME''"
  by code_simp

text \<open>C7. Whatever the uppercasing: a string that uppercases to \<^verbatim>\<open>OTHER\<close> maps to 4 in
  the columns \<^verbatim>\<open>Mjob\<close> and \<^verbatim>\<open>Fjob\<close>, to 3 in \<^verbatim>\<open>reason\<close> and to 2 in \<^verbatim>\<open>guardian\<close>; a string
  that uppercases to one of the other listed keys maps to the listed code, in every column;
  a string that uppercases to none of the recognised keys is returned unchanged.\<close>

theorem students_str_map_codes:
  "(upper s = ''OTHER'' \<longrightarrow>
      (column = ''Mjob'' \<or> column = ''Fjob'' \<longrightarrow> students_str_map upper (StrV s) column = IntV 4) \<and>
      (column = ''reason'' \<longrightarrow> students_str_map upper (StrV s) column = IntV 3) \<and>
      (column = ''guardian'' \<longrightarrow> students_str_map upper (StrV s) column = IntV 2)) \<and>
   (\<forall>k n. (k, n) \<in> set listed_codes \<longrightarrow> upper s = k \<longrightarrow>
      students_str_map upper (StrV s) column = IntV n) \<and>
   (upper s \<noteq> ''OTHER'' \<and> upper s \<notin> fst ` set listed_codes \<longrightarrow>
      students_str_map upper (StrV s) column = StrV s)"
  by (simp add: students_str_map_def listed_codes_def Let_def)

text \<open>C10. A string that uppercases to \<^verbatim>\<open>OTHER\<close>, in a column other than \<^verbatim>\<open>reason\<close>,
  \<^verbatim>\<open>guardian\<close>, \<^verbatim>\<open>Mjob\<close> and \<^verbatim>\<open>Fjob\<close>, maps to \<^verbatim>\<open>None\<close>: it is not passed through.\<close>

theorem students_str_map_other_elsewhere:
  "upper s = ''OTHER'' \<Longrightarrow> column \<notin> {''reason'', ''guardian'', ''Mjob'', ''Fjob''} \<Longrightarrow>
   students_str_map upper (StrV s) column = NoneV"
  by (simp add: students_str_map_def Let_def)

text \<open>The map at lower-case and mixed-case inputs, with ASCII uppercasing.\<close>

theorem students_str_map_codes_witness:
  "students_str_map ascii_upper (StrV ''other'') ''Mjob'' = IntV 4 \<and>
   students_str_map ascii_upper (StrV ''other'') ''reason'' = IntV 3 \<and>
   students_str_map ascii_upper (StrV ''other'') ''guardian'' = IntV 2 \<and>
   students_str_map ascii_upper (StrV ''At_Home'') ''Mjob'' = IntV 3"
  using students_str_map_codes [of ascii_upper "''other''" "''Mjob''"]
    students_str_map_codes [of ascii_upper "''other''" "''reason''"]
    students_str_map_codes [of ascii_upper "''other''" "''guardian''"]
    students_str_map_codes [of ascii_upper "''At_Home''" "''Mjob''"]
  by (simp add: upper_other upper_mixed listed_codes_def)

text \<open>\<^verbatim>\<open>"other"\<close> in the column \<^verbatim>\<open>school\<close>.\<close>

theorem students_str_map_other_elsewhere_witness:
  "students_str_map ascii_upper (StrV ''other'') ''school'' = NoneV"
  using students_str_map_other_elsewhere [of ascii_upper "''other''" "''school''"]
  by (simp add: upper_other)

section \<open>The import scanner\<close>

lemma map_of_dict_set: "map_of (dict_set k v d) = (map_of d)(k \<mapsto> v)"
  by (induction d) (auto simp: fun_eq_iff)

lemma split_on_not_Nil: "split_on c s \<noteq> []"
  by (induction s) (auto split: list.splits)

lemma length_split_on: "length (split_on c s) = Suc (count_list s c)"
  by (induction s) (auto split: list.splits simp: split_on_not_Nil)

lemma split_on_single: "c \<notin> set s \<Longrightarrow> split_on c s = [s]"
  by (induction s) auto

lemma split_on_two:
  "split_on c s = [a, b] \<Longrightarrow> s = a @ c # b \<and> c \<notin> set a \<and> c \<notin> set b"
proof (induction s arbitrary: a)
  case Nil
  then show ?case by simp
next
  case (Cons x xs)
  show ?case
  proof (cases "x = c")
    case True
    with Cons.prems have a: "a = []" and b: "split_on c xs = [b]" by auto
    have "count_list xs c = 0"
      using length_split_on [of c xs] b by simp
    then have "c \<notin> set xs" by (simp add: count_list_0_iff)
    moreover from this b have "b = xs" by (simp add: split_on_single)
    ultimately show ?thesis using a True by simp
  next
    case False
    with Cons.prems obtain p where p: "split_on c xs = [p, b]" and a: "a = x # p"
      by (auto split: list.splits)
    from Cons.IH [OF p] a False show ?thesis by auto
  qed
qed

lemma fnmatch_star:
  "fnmatch (CHR ''*'' # ps) s \<longleftrightarrow> (\<exists>a b. s = a @ b \<and> fnmatch ps b)"
proof (induction s)
  case Nil
  then show ?case by simp
next
  case (Cons c cs)
  show ?case
  proof
    assume "fnmatch (CHR ''*'' # ps) (c # cs)"
    then consider "fnmatch ps (c # cs)" | "fnmatch (CHR ''*'' # ps) cs" by auto
    then show "\<exists>a b. c # cs = a @ b \<and> fnmatch ps b"
    proof cases
      case 1
      then have "c # cs = [] @ (c # cs) \<and> fnmatch ps (c # cs)" by simp
      then show ?thesis by blast
    next
      case 2
      with Cons.IH obtain a b where "cs = a @ b" "fnmatch ps b" by blast
      then have "c # cs = (c # a) @ b \<and> fnmatch ps b" by simp
      then show ?thesis by blast
    qed
  next
    assume "\<exists>a b. c # cs = a @ b \<and> fnmatch ps b"
    then obtain a b where ab: "c # cs = a @ b" and m: "fnmatch ps b" by blast
    show "fnmatch (CHR ''*'' # ps) (c # cs)"
    proof (cases a)
      case Nil
      with ab m have "fnmatch ps (c # cs)" by simp
      then show ?thesis by simp
    next
      case (Cons a0 as)
      with ab have "cs = as @ b" by simp
      with m Cons.IH have "fnmatch (CHR ''*'' # ps) cs" by blast
      then show ?thesis by simp
    qed
  qed
qed

lemma fnmatch_literal:
  "p \<noteq> CHR ''*'' \<Longrightarrow> fnmatch (p # ps) s \<longleftrightarrow> (\<exists>cs. s = p # cs \<and> fnmatch ps cs)"
  by (cases s) auto

lemma fnmatch_csv_iff:
  "fnmatch ''*_*.csv'' n \<longleftrightarrow> (\<exists>a b. n = a @ ''_'' @ b @ ''.csv'')"
  by (simp add: fnmatch_star fnmatch_literal) blast

lemma rfind_None: "c \<notin> set ys \<Longrightarrow> rfind c ys = None"
  by (induction ys) auto

lemma rfind_last: "c \<notin> set ys \<Longrightarrow> rfind c (xs @ c # ys) = Some (length xs)"
  by (induction xs) (auto simp: rfind_None)

lemma stem_csv: "x \<noteq> [] \<Longrightarrow> stem (x @ ''.csv'') = x"
  using rfind_last [of "CHR ''.''" "''csv''" x] by (simp add: stem_def)

lemma matched_name:
  assumes "fnmatch ''*_*.csv'' n"
  shows "n = stem n @ ''.csv''" and "CHR ''_'' \<in> set (stem n)"
proof -
  from assms obtain a b where n: "n = (a @ ''_'' @ b) @ ''.csv''"
    unfolding fnmatch_csv_iff by auto
  have "stem n = a @ ''_'' @ b"
    unfolding n by (rule stem_csv) simp
  with n show "n = stem n @ ''.csv''" and "CHR ''_'' \<in> set (stem n)" by simp_all
qed


lemma gather_loop_Cons_Inr:
  "gather_loop rc f (x # rest) d = Inr d' \<longleftrightarrow>
   (\<exists>db tn df. split_on (CHR ''_'') (stem x) = [db, tn] \<and> rc (f @ ''/'' @ x) = Inr df \<and>
      gather_loop rc f rest
        (dict_set (stem x)
           \<lparr>name = tn, db_name = VStr db, index_label = None, csv_path = f @ ''/'' @ x,
            dataframe = df, database = None, index = None\<rparr> d) = Inr d')"
  by (auto simp: Let_def new_DBTable_def csv_to_dataframe_def split: list.splits sum.splits)

lemma gather_loop_error:
  "n \<in> set ns \<Longrightarrow> length (split_on (CHR ''_'') (stem n)) \<noteq> 2 \<Longrightarrow>
   \<exists>e. gather_loop rc f ns d = Inl e"
proof (induction ns arbitrary: d)
  case Nil
  then show ?case by simp
next
  case (Cons x rest)
  show ?case
  proof (cases "gather_loop rc f (x # rest) d")
    case (Inl e)
    then show ?thesis by blast
  next
    case (Inr d')
    then obtain db tn t where sp: "split_on (CHR ''_'') (stem x) = [db, tn]"
      and rest: "gather_loop rc f rest (dict_set (stem x) t d) = Inr d'"
      unfolding gather_loop_Cons_Inr by blast
    from sp Cons.prems have "n \<in> set rest" by auto
    from Cons.IH [OF this Cons.prems(2), of "dict_set (stem x) t d"] rest show ?thesis by simp
  qed
qed

lemma gather_loop_keep:
  "gather_loop rc f ns d = Inr d' \<Longrightarrow> k \<notin> stem ` set ns \<Longrightarrow> map_of d' k = map_of d k"
proof (induction ns arbitrary: d)
  case Nil
  then show ?case by simp
next
  case (Cons x rest)
  from Cons.prems(1) obtain t where
    rest: "gather_loop rc f rest (dict_set (stem x) t d) = Inr d'"
    unfolding gather_loop_Cons_Inr by blast
  from Cons.IH [OF rest] Cons.prems(2) show ?case
    by (simp add: map_of_dict_set)
qed

lemma gather_loop_entry:
  assumes "gather_loop rc f ns d = Inr d'"
    and "\<forall>x\<in>set ns. x = stem x @ ''.csv''"
    and "n \<in> set ns"
  shows "\<exists>db tn df. split_on (CHR ''_'') (stem n) = [db, tn] \<and> rc (f @ ''/'' @ n) = Inr df \<and>
           map_of d' (stem n) =
             Some \<lparr>name = tn, db_name = VStr db, index_label = None, csv_path = f @ ''/'' @ n,
                   dataframe = df, database = None, index = None\<rparr>"
  using assms
proof (induction ns arbitrary: d)
  case Nil
  then show ?case by simp
next
  case (Cons x rest)
  from Cons.prems(1) obtain db tn df where
    sp: "split_on (CHR ''_'') (stem x) = [db, tn]" and rd: "rc (f @ ''/'' @ x) = Inr df" and
    rest: "gather_loop rc f rest
        (dict_set (stem x)
           \<lparr>name = tn, db_name = VStr db, index_label = None, csv_path = f @ ''/'' @ x,
            dataframe = df, database = None, index = None\<rparr> d) = Inr d'"
    unfolding gather_loop_Cons_Inr by blast
  show ?case
  proof (cases "n \<in> set rest")
    case True
    from Cons.IH [OF rest _ True] Cons.prems(2) show ?thesis by simp
  next
    case False
    with Cons.prems(3) have n: "n = x" by simp
    have "stem x \<notin> stem ` set rest"
    proof
      assume "stem x \<in> stem ` set rest"
      then obtain y where y: "y \<in> set rest" "stem y = stem x" by auto
      with Cons.prems(2) have "y = stem y @ ''.csv''" "x = stem x @ ''.csv''" by auto
      with y have "y = x" by simp
      with y False n show False by simp
    qed
    from gather_loop_keep [OF rest this] sp rd n show ?thesis
      by (simp add: map_of_dict_set)
  qed
qed

lemma set_glob_csv: "set (glob_csv entries) = {n \<in> set entries. \<not> is_hidden n \<and> fnmatch ''*_*.csv'' n}"
  by (auto simp: glob_csv_def)

text \<open>C6 (as amended). The scanner splits the stem of every matched file at every
  underscore. If the stem of a matched file has more than one underscore the scan raises and
  returns no mapping. When the scan returns, the stem of every matched file has exactly one
  underscore, the text before it is the database name and the text after it the table name,
  and the mapping holds that table under the stem.\<close>

theorem gather_csv_paths_split:
  assumes "n \<in> set entries" and "\<not> is_hidden n" and "fnmatch ''*_*.csv'' n"
  shows "(1 < count_list (stem n) (CHR ''_'') \<longrightarrow>
            (\<exists>e. gather_csv_paths rc entries folder = Inl e)) \<and>
         (\<forall>d. gather_csv_paths rc entries folder = Inr d \<longrightarrow>
            (\<exists>db tn df. stem n = db @ ''_'' @ tn \<and> CHR ''_'' \<notin> set db \<and> CHR ''_'' \<notin> set tn \<and>
               split_on (CHR ''_'') (stem n) = [db, tn] \<and>
               rc (folder @ ''/'' @ n) = Inr df \<and>
               map_of d (stem n) =
                 Some \<lparr>name = tn, db_name = VStr db, index_label = None,
                       csv_path = folder @ ''/'' @ n, dataframe = df, database = None,
                       index = None\<rparr>))"
proof (intro conjI impI allI)
  from assms have mem: "n \<in> set (glob_csv entries)" by (simp add: set_glob_csv)
  {
    assume "1 < count_list (stem n) (CHR ''_'')"
    then have "length (split_on (CHR ''_'') (stem n)) \<noteq> 2"
      by (simp add: length_split_on)
    from gather_loop_error [OF mem this]
    show "\<exists>e. gather_csv_paths rc entries folder = Inl e"
      by (simp add: gather_csv_paths_def)
  }
  fix d
  assume "gather_csv_paths rc entries folder = Inr d"
  then have ok: "gather_loop rc folder (glob_csv entries) [] = Inr d"
    by (simp add: gather_csv_paths_def)
  have "\<forall>x\<in>set (glob_csv entries). x = stem x @ ''.csv''"
    using matched_name(1) by (simp add: set_glob_csv)
  from gather_loop_entry [OF ok this mem] obtain db tn df where
    sp: "split_on (CHR ''_'') (stem n) = [db, tn]" and rd: "rc (folder @ ''/'' @ n) = Inr df" and
    mp: "map_of d (stem n) =
             Some \<lparr>name = tn, db_name = VStr db, index_label = None, csv_path = folder @ ''/'' @ n,
                   dataframe = df, database = None, index = None\<rparr>"
    by blast
  from split_on_two [OF sp] sp rd mp
  show "\<exists>db tn df. stem n = db @ ''_'' @ tn \<and> CHR ''_'' \<notin> set db \<and> CHR ''_'' \<notin> set tn \<and>
               split_on (CHR ''_'') (stem n) = [db, tn] \<and>
               rc (folder @ ''/'' @ n) = Inr df \<and>
               map_of d (stem n) =
                 Some \<lparr>name = tn, db_name = VStr db, index_label = None,
                       csv_path = folder @ ''/'' @ n, dataframe = df, database = None,
                       index = None\<rparr>"
    by auto
qed

lemma glob_three: "glob_csv [''a_b_c.csv''] = [''a_b_c.csv'']"
  by code_simp

lemma stem_three: "stem ''a_b_c.csv'' = ''a_b_c''"
  by code_simp

lemma split_three: "split_on (CHR ''_'') ''a_b_c'' = [''a'', ''b'', ''c'']"
  by code_simp

text \<open>C6 as stated fails: the stem \<^verbatim>\<open>a_b_c\<close> is not split at its first underscore
  into \<^verbatim>\<open>a\<close> and \<^verbatim>\<open>b_c\<close>; it is split into three pieces, the unpacking raises
  ValueError, and no table is built.\<close>

theorem gather_csv_paths_three_parts:
  "gather_csv_paths read_two_rows [''a_b_c.csv''] ''data'' = Inl ValueError \<and>
   split_on (CHR ''_'') (stem ''a_b_c.csv'') = [''a'', ''b'', ''c'']"
  by (simp add: gather_csv_paths_def glob_three stem_three split_three)


lemma glob_one: "glob_csv [''school_math.csv''] = [''school_math.csv'']"
  by code_simp

text \<open>The theorem at a file with one underscore and at a file with two.\<close>

theorem gather_csv_paths_split_witness:
  "\<not> is_hidden ''school_math.csv'' \<and> fnmatch ''*_*.csv'' ''school_math.csv'' \<and>
   (\<exists>d. gather_csv_paths read_two_rows [''school_math.csv''] ''data'' = Inr d \<and>
      map_of d ''school_math'' =
        Some \<lparr>name = ''math'', db_name = VStr ''school'', index_label = None,
              csv_path = ''data/school_math.csv'', dataframe = two_rows, database = None,
              index = None\<rparr>) \<and>
   \<not> is_hidden ''a_b_c.csv'' \<and> fnmatch ''*_*.csv'' ''a_b_c.csv'' \<and>
   1 < count_list (stem ''a_b_c.csv'') (CHR ''_'') \<and>
   (\<exists>e. gather_csv_paths read_two_rows [''a_b_c.csv''] ''data'' = Inl e)"
proof -
  have h1: "\<not> is_hidden ''school_math.csv''" and m1: "fnmatch ''*_*.csv'' ''school_math.csv''"
    and h2: "\<not> is_hidden ''a_b_c.csv''" and m2: "fnmatch ''*_*.csv'' ''a_b_c.csv''"
    and c2: "1 < count_list (stem ''a_b_c.csv'') (CHR ''_'')"
    by code_simp+
  have st: "stem ''school_math.csv'' = ''school_math''"
    and sp: "split_on (CHR ''_'') ''school_math'' = [''school'', ''math'']"
    by code_simp+
  have run: "gather_csv_paths read_two_rows [''school_math.csv''] ''data'' =
      Inr [(''school_math'', \<lparr>name = ''math'', db_name = VStr ''school'', index_label = None,
              csv_path = ''data/school_math.csv'', dataframe = two_rows, database = None,
              index = None\<rparr>)]"
    by (simp add: gather_csv_paths_def glob_one st sp new_DBTable_def csv_to_dataframe_def
        read_two_rows_def)
  from gather_csv_paths_split [of "''school_math.csv''" "[''school_math.csv'']", OF _ h1 m1,
      of read_two_rows "''data''"]
    gather_csv_paths_split [of "''a_b_c.csv''" "[''a_b_c.csv'']", OF _ h2 m2,
      of read_two_rows "''data''"]
  show ?thesis
    using h1 m1 h2 m2 c2 run by (simp add: st)
qed

lemma two_element_lists:
  assumes "set xs = {a, b}" and "distinct xs" and "a \<noteq> b"
  shows "xs = [a, b] \<or> xs = [b, a]"
proof -
  from assms have "length xs = 2"
    using distinct_card [of xs] by simp
  then obtain x y where xs: "xs = [x, y]"
    by (cases xs; cases "tl xs") auto
  with assms show ?thesis by auto
qed

lemma glob_school:
  "glob_csv [''school_math.csv'', ''school_portuguese.csv''] =
     [''school_math.csv'', ''school_portuguese.csv'']"
  "glob_csv [''school_portuguese.csv'', ''school_math.csv''] =
     [''school_portuguese.csv'', ''school_math.csv'']"
  by code_simp+

lemma stem_school:
  "stem ''school_math.csv'' = ''school_math''"
  "stem ''school_portuguese.csv'' = ''school_portuguese''"
  by code_simp+

lemma split_school:
  "split_on (CHR ''_'') ''school_math'' = [''school'', ''math'']"
  "split_on (CHR ''_'') ''school_portuguese'' = [''school'', ''portuguese'']"
  by code_simp+

lemma glob_csv_idem: "glob_csv (filter (fnmatch ''*_*.csv'') entries) = glob_csv entries"
  by (induction entries) (auto simp: glob_csv_def)

text \<open>C5. For a folder whose entries are exactly \<^verbatim>\<open>school_math.csv\<close> and
  \<^verbatim>\<open>school_portuguese.csv\<close>, in either order, both of which the parser reads: the scan returns
  a mapping with exactly the keys \<^verbatim>\<open>school_math\<close> and \<^verbatim>\<open>school_portuguese\<close>, whose tables
  have the database name \<^verbatim>\<open>school\<close> and the names \<^verbatim>\<open>math\<close> and \<^verbatim>\<open>portuguese\<close>. For any
  folder, the entries that do not match \<^verbatim>\<open>*_*.csv\<close> change nothing: the scan of the folder
  is the scan of its matching entries.\<close>

theorem gather_csv_paths_school:
  assumes dir: "set entries = {''school_math.csv'', ''school_portuguese.csv''}"
    and dis: "distinct entries"
    and rm: "read_csv (folder @ ''/school_math.csv'') = Inr dfm"
    and rp: "read_csv (folder @ ''/school_portuguese.csv'') = Inr dfp"
  shows "(\<exists>d. gather_csv_paths read_csv entries folder = Inr d \<and>
            fst ` set d = {''school_math'', ''school_portuguese''} \<and>
            distinct (map fst d) \<and>
            map_of d ''school_math'' =
              Some \<lparr>name = ''math'', db_name = VStr ''school'', index_label = None,
                    csv_path = folder @ ''/school_math.csv'', dataframe = dfm,
                    database = None, index = None\<rparr> \<and>
            map_of d ''school_portuguese'' =
              Some \<lparr>name = ''portuguese'', db_name = VStr ''school'', index_label = None,
                    csv_path = folder @ ''/school_portuguese.csv'', dataframe = dfp,
                    database = None, index = None\<rparr>) \<and>
         gather_csv_paths read_csv others folder =
           gather_csv_paths read_csv (filter (fnmatch ''*_*.csv'') others) folder"
proof
  let ?tm = "\<lparr>name = ''math'', db_name = VStr ''school'', index_label = None,
                    csv_path = folder @ ''/school_math.csv'', dataframe = dfm,
                    database = None, index = None\<rparr>"
  let ?tp = "\<lparr>name = ''portuguese'', db_name = VStr ''school'', index_label = None,
                    csv_path = folder @ ''/school_portuguese.csv'', dataframe = dfp,
                    database = None, index = None\<rparr>"
  have "entries = [''school_math.csv'', ''school_portuguese.csv''] \<or>
        entries = [''school_portuguese.csv'', ''school_math.csv'']"
    using dir dis by (intro two_element_lists) simp_all
  then have "gather_csv_paths read_csv entries folder =
        Inr [(''school_math'', ?tm), (''school_portuguese'', ?tp)] \<or>
      gather_csv_paths read_csv entries folder =
        Inr [(''school_portuguese'', ?tp), (''school_math'', ?tm)]"
    using rm rp
    by (auto simp: gather_csv_paths_def glob_school stem_school split_school new_DBTable_def
        csv_to_dataframe_def)
  then show "\<exists>d. gather_csv_paths read_csv entries folder = Inr d \<and>
            fst ` set d = {''school_math'', ''school_portuguese''} \<and>
            distinct (map fst d) \<and>
            map_of d ''school_math'' = Some ?tm \<and>
            map_of d ''school_portuguese'' = Some ?tp"
    by auto
next
  show "gather_csv_paths read_csv others folder =
           gather_csv_paths read_csv (filter (fnmatch ''*_*.csv'') others) folder"
    by (simp add: gather_csv_paths_def glob_csv_idem)
qed

text \<open>The theorem at a folder that lists the Portuguese file first.\<close>

theorem gather_csv_paths_school_witness:
  "\<exists>d. gather_csv_paths read_two_rows [''school_portuguese.csv'', ''school_math.csv''] ''data'' = Inr d \<and>
     fst ` set d = {''school_math'', ''school_portuguese''} \<and>
     map_of d ''school_math'' =
       Some \<lparr>name = ''math'', db_name = VStr ''school'', index_label = None,
             csv_path = ''data/school_math.csv'', dataframe = two_rows,
             database = None, index = None\<rparr> \<and>
     map_of d ''school_portuguese'' =
       Some \<lparr>name = ''portuguese'', db_name = VStr ''school'', index_label = None,
             csv_path = ''data/school_portuguese.csv'', dataframe = two_rows,
             database = None, index = None\<rparr>"
proof -
  have dir: "set [''school_portuguese.csv'', ''school_math.csv''] =
      {''school_math.csv'', ''school_portuguese.csv''}"
    by auto
  have dis: "distinct [''school_portuguese.csv'', ''school_math.csv'']"
    by simp
  have rd: "read_two_rows (''data'' @ ''/school_math.csv'') = Inr two_rows"
    "read_two_rows (''data'' @ ''/school_portuguese.csv'') = Inr two_rows"
    by (simp_all add: read_two_rows_def)
  from gather_csv_paths_school [OF dir dis rd, THEN conjunct1] show ?thesis
    by auto
qed

section \<open>Loading, saving and loading again\<close>
























text \<open>The second load of the example, computed; and the same for a file that was written
  this way before, whose header has \<^verbatim>\<open>Unnamed: 0\<close> already: that column keeps its label and
  the new index column is \<^verbatim>\<open>Unnamed: 0.1\<close>.\<close>

lemma example_second_load:
  "map_sum id dataframe
     (csv_to_dataframe
       (read_with (dataframe_to_csv default_separator loaded_table example_files)
          default_separator) loaded_table) =
   Inr \<lparr>index_name = None, index_values = [IntV 0, IntV 1],
        columns = [(''Unnamed: 0'', [IntV 0, IntV 1]), (''age'', [IntV 15, IntV 16]),
                   (''sex'', [StrV ''F'', StrV ''M''])]\<rparr>"
  by code_simp

lemma example_saved_before:
  "map_sum id (\<lambda>df. (len_df df, column_names df))
     (pd_read_csv
        [''f.csv'' \<mapsto> \<lparr>delimiter = CHR '';'',
                        records = [['''', ''age''], [''0'', ''15''], [''1'', ''16'']]\<rparr>]
        ''f.csv'' (CHR '';'')) = Inr (2, [''Unnamed: 0'', ''age'']) \<and>
   map_sum id (\<lambda>df. (len_df df, column_names df))
     (pd_read_csv
        [''f.csv'' \<mapsto> \<lparr>delimiter = CHR '';'',
                        records = [['''', ''Unnamed: 0'', ''age''], [''0'', ''0'', ''15''],
                                   [''1'', ''1'', ''16'']]\<rparr>]
        ''f.csv'' (CHR '';'')) = Inr (2, [''Unnamed: 0.1'', ''Unnamed: 0'', ''age''])"
  by code_simp

section \<open>Registering tables\<close>

lemma and_then_None:
  "and_then f g w = (None, w') \<longleftrightarrow> (\<exists>w1. f w = (None, w1) \<and> g w1 = (None, w'))"
  by (auto simp: and_then_def split: prod.splits option.splits)

lemma getattr_db_Some: "d n = Some v \<Longrightarrow> getattr_db d n = Inr v"
  by (simp add: getattr_db_def)

lemma field_names:
  "''name'' \<notin> set class_attrs" "''tables'' \<notin> set class_attrs"
  "''connection'' \<notin> set class_attrs" "''if_exists'' \<notin> set class_attrs"
  "''cursor'' \<notin> set class_attrs"
  by (simp_all add: class_attrs_def Database_methods_def Database_properties_def object_attrs_def)

lemma set_owner_None:
  "set_owner self t w = (None, w1) \<longleftrightarrow>
   (\<exists>v. databases w self ''name'' = Some v \<and>
      w1 = w\<lparr>tables_of := (tables_of w)(t := (tables_of w t)\<lparr>database := Some self, db_name := v\<rparr>)\<rparr>)"
  by (auto simp: set_owner_def update_table_def Let_def getattr_db_def field_names
      split: sum.splits option.splits)

lemma append_table_None:
  "append_table self t w = (None, w1) \<longleftrightarrow>
   (\<exists>ts. databases w self ''tables'' = Some (VList ts) \<and>
      w1 = w\<lparr>databases := (databases w)(self := (databases w self)(''tables'' \<mapsto> VList (ts @ [t])))\<rparr>)"
  by (auto simp: append_table_def update_db_def getattr_db_def field_names
      split: sum.splits option.splits pyval.splits)

lemma warn_existing_eq:
  "warn_existing self t w =
     (None, w\<lparr>ic_log := ic_log w @
        (if hasattr_db (databases w self) (name (tables_of w t))
         then [''changing '' @ name (tables_of w t) @ '' to new value.''] else [])\<rparr>)"
  by (simp add: warn_existing_def Let_def)

lemma bind_table_None:
  "bind_table self t w = (None, w1) \<longleftrightarrow>
   (databases w self ''__setattr__'' = None \<and>
    setattr_db (name (tables_of w t)) (VTable t) (databases w self) =
      Inr ((databases w self)(name (tables_of w t) \<mapsto> VTable t)) \<and>
    w1 = w\<lparr>databases := (databases w)(self := (databases w self)(name (tables_of w t) \<mapsto> VTable t))\<rparr>)"
  by (auto simp: bind_table_def update_db_def Let_def setattr_db_def split: sum.splits if_splits)

lemma to_sql_Inr_conn:
  "to_sql df nm con ife label store = Inr store' \<Longrightarrow>
   (\<exists>path. con = VConn path) \<and> ife \<in> {VStr ''fail'', VStr ''replace'', VStr ''append''}"
  by (auto simp: to_sql_def Let_def split: if_splits pyval.splits)

lemma store_table_None:
  "store_table self t w = (None, w1) \<longleftrightarrow>
   (databases w self ''add_table_to_database'' = None \<and>
    (\<exists>con ife label store.
       databases w self ''connection'' = Some con \<and>
       databases w self ''if_exists'' = Some ife \<and>
       index_label (tables_of w t) = Some label \<and>
       to_sql (dataframe (tables_of w t)) (name (tables_of w t)) con ife label (sqlite w) =
         Inr store \<and>
       w1 = w\<lparr>sqlite := store\<rparr>))"
  by (auto simp: store_table_def add_table_to_database_def Let_def getattr_db_def field_names
      split: sum.splits option.splits)

lemma hasattr_db_upd:
  "d k \<noteq> None \<Longrightarrow> hasattr_db (d(k \<mapsto> v)) n = hasattr_db d n"
  by (auto simp: hasattr_db_def)

text \<open>What a call of \<open>add_table\<close> that returns has done.\<close>

lemma add_table_None:
  assumes "add_table self t w = (None, w')"
  shows "\<exists>v ts con ife label store.
    databases w self ''name'' = Some v \<and>
    databases w self ''tables'' = Some (VList ts) \<and>
    databases w self ''__setattr__'' = None \<and>
    tables_of w' = (tables_of w)(t := (tables_of w t)\<lparr>database := Some self, db_name := v\<rparr>) \<and>
    databases w' = (databases w)(self :=
       (databases w self)(''tables'' \<mapsto> VList (ts @ [t]), name (tables_of w t) \<mapsto> VTable t)) \<and>
    databases w' self ''connection'' = Some con \<and>
    databases w' self ''if_exists'' = Some ife \<and>
    index_label (tables_of w t) = Some label \<and>
    to_sql (dataframe (tables_of w t)) (name (tables_of w t)) con ife label (sqlite w) = Inr store \<and>
    sqlite w' = store \<and>
    ic_log w' = ic_log w @
        (if hasattr_db (databases w self) (name (tables_of w t))
         then [''changing '' @ name (tables_of w t) @ '' to new value.''] else []) \<and>
    next_db w' = next_db w \<and> dirs w' = dirs w"
proof -
  from assms obtain w1 w2 w3 w4 where
    s1: "set_owner self t w = (None, w1)" and
    s2: "append_table self t w1 = (None, w2)" and
    s3: "warn_existing self t w2 = (None, w3)" and
    s4: "bind_table self t w3 = (None, w4)" and
    s5: "store_table self t w4 = (None, w')"
    unfolding add_table_def and_then_None by blast
  from s1 obtain v where v: "databases w self ''name'' = Some v" and
    w1: "w1 = w\<lparr>tables_of := (tables_of w)(t := (tables_of w t)\<lparr>database := Some self, db_name := v\<rparr>)\<rparr>"
    unfolding set_owner_None by blast
  from s2 obtain ts where ts: "databases w1 self ''tables'' = Some (VList ts)" and
    w2: "w2 = w1\<lparr>databases := (databases w1)(self := (databases w1 self)(''tables'' \<mapsto> VList (ts @ [t])))\<rparr>"
    unfolding append_table_None by blast
  from s3 have
    w3: "w3 = w2\<lparr>ic_log := ic_log w2 @
        (if hasattr_db (databases w2 self) (name (tables_of w2 t))
         then [''changing '' @ name (tables_of w2 t) @ '' to new value.''] else [])\<rparr>"
    unfolding warn_existing_eq by simp
  from s4 have sa: "databases w3 self ''__setattr__'' = None" and
    w4: "w4 = w3\<lparr>databases := (databases w3)(self := (databases w3 self)(name (tables_of w3 t) \<mapsto> VTable t))\<rparr>"
    unfolding bind_table_None by blast+
  from s5 obtain con ife label store where
    con: "databases w4 self ''connection'' = Some con" and
    ife: "databases w4 self ''if_exists'' = Some ife" and
    lab: "index_label (tables_of w4 t) = Some label" and
    sql: "to_sql (dataframe (tables_of w4 t)) (name (tables_of w4 t)) con ife label (sqlite w4) = Inr store" and
    w': "w' = w4\<lparr>sqlite := store\<rparr>"
    unfolding store_table_None by blast
  have nm: "name (tables_of w1 t) = name (tables_of w t)"
    by (simp add: w1)
  have hs: "hasattr_db (databases w2 self) (name (tables_of w t)) =
      hasattr_db (databases w self) (name (tables_of w t))"
    using ts by (simp add: w2 w1 hasattr_db_upd)
  show ?thesis
    using v ts sa con ife lab sql hs
    by (simp add: w' w4 w3 w2 w1 split: if_splits)
qed



lemma add_table_keeps_names:
  "add_table self t w = (None, w') \<Longrightarrow> name (tables_of w' x) = name (tables_of w x)"
  by (drule add_table_None) auto

lemma add_table_keeps_frames:
  "add_table self t w = (None, w') \<Longrightarrow>
   dataframe (tables_of w' x) = dataframe (tables_of w x) \<and>
   index_label (tables_of w' x) = index_label (tables_of w x)"
  by (drule add_table_None) auto

text \<open>C2 (as amended). When two calls of \<^verbatim>\<open>add_table\<close> on one database, with tables of
  the same name, both return: the owned list is the list before the calls followed by both
  tables, in the order registered, so \<^verbatim>\<open>table_names\<close> lists the name twice; the attribute of
  that name is bound to the second table; and the second call has logged
  \<^verbatim>\<open>changing <name> to new value.\<close> as its only message.\<close>

theorem add_table_same_name_twice:
  assumes one: "add_table self t1 w = (None, w1)"
    and two: "add_table self t2 w1 = (None, w2)"
    and n1: "name (tables_of w t1) = n"
    and n2: "name (tables_of w t2) = n"
  shows "\<exists>ts. databases w self ''tables'' = Some (VList ts) \<and>
           databases w2 self ''tables'' = Some (VList (ts @ [t1, t2])) \<and>
           table_names self w2 = Inr (map (\<lambda>t. name (tables_of w t)) ts @ [n, n]) \<and>
           databases w2 self n = Some (VTable t2) \<and>
           ic_log w2 = ic_log w1 @ [''changing '' @ n @ '' to new value.'']"
proof -
  from add_table_None [OF one] n1 obtain ts where
    ts: "databases w self ''tables'' = Some (VList ts)" and
    d1: "databases w1 = (databases w)(self :=
       (databases w self)(''tables'' \<mapsto> VList (ts @ [t1]), n \<mapsto> VTable t1))"
    by auto
  have n2': "name (tables_of w1 t2) = n"
    using add_table_keeps_names [OF one] n2 by simp
  from add_table_None [OF two] n2' obtain ts' where
    ts': "databases w1 self ''tables'' = Some (VList ts')" and
    d2: "databases w2 = (databases w1)(self :=
       (databases w1 self)(''tables'' \<mapsto> VList (ts' @ [t2]), n \<mapsto> VTable t2))" and
    lg: "ic_log w2 = ic_log w1 @
        (if hasattr_db (databases w1 self) n
         then [''changing '' @ n @ '' to new value.''] else [])"
    by auto
  from ts' d1 have neq: "n \<noteq> ''tables''" and ts'_eq: "ts' = ts @ [t1]"
    by (auto split: if_splits)
  have bound: "databases w1 self n = Some (VTable t1)"
    by (simp add: d1)
  then have "hasattr_db (databases w1 self) n"
    by (simp add: hasattr_db_def)
  with lg have log: "ic_log w2 = ic_log w1 @ [''changing '' @ n @ '' to new value.'']"
    by simp
  have list2: "databases w2 self ''tables'' = Some (VList (ts @ [t1, t2]))"
    using neq by (simp add: d2 ts'_eq)
  have names: "name (tables_of w2 x) = name (tables_of w x)" for x
    using add_table_keeps_names [OF two] add_table_keeps_names [OF one] by simp
  have "table_names self w2 = Inr (map (\<lambda>t. name (tables_of w t)) ts @ [n, n])"
    using list2 n1 n2 by (simp add: table_names_def getattr_db_Some names)
  moreover have "databases w2 self n = Some (VTable t2)"
    by (simp add: d2)
  ultimately show ?thesis
    using ts list2 log by blast
qed

lemma school_world_twice:
  "add_table 0 0 school_world = (None, snd (add_table 0 0 school_world))"
  "add_table 0 1 (snd (add_table 0 0 school_world)) =
     (None, snd (add_table 0 1 (snd (add_table 0 0 school_world))))"
  "name (tables_of school_world 0) = ''math''"
  "name (tables_of school_world 1) = ''math''"
  "databases school_world 0 ''tables'' = Some (VList [])"
  "databases school_world 0 ''if_exists'' = Some (VStr ''replace'')"
  "databases school_world 0 ''connection'' = Some (VConn ''/data/school.db'')"
  "index_label (tables_of school_world 1) = Some ''ID''"
  by (simp_all add: prod_eq_iff) code_simp+

text \<open>The theorem at the two tables named \<^verbatim>\<open>math\<close> of the example world.\<close>

theorem add_table_same_name_twice_witness:
  "databases (snd (add_table 0 1 (snd (add_table 0 0 school_world)))) 0 ''tables'' =
     Some (VList [0, 1]) \<and>
   table_names 0 (snd (add_table 0 1 (snd (add_table 0 0 school_world)))) =
     Inr [''math'', ''math''] \<and>
   databases (snd (add_table 0 1 (snd (add_table 0 0 school_world)))) 0 ''math'' =
     Some (VTable 1)"
  using add_table_same_name_twice [OF school_world_twice(1,2,3,4)]
  by (auto simp: school_world_twice(3,4,5))

text \<open>C2 as stated fails: after both calls the owned list holds two tables named
  \<^verbatim>\<open>math\<close>, not one; the earlier entry is not replaced, and the names in the list are not
  unique.\<close>

theorem add_table_keeps_both_entries:
  "fst (add_table 0 0 school_world) = None \<and>
   fst (add_table 0 1 (snd (add_table 0 0 school_world))) = None \<and>
   name (tables_of school_world 0) = ''math'' \<and>
   name (tables_of school_world 1) = ''math'' \<and>
   table_names 0 (snd (add_table 0 1 (snd (add_table 0 0 school_world)))) =
     Inr [''math'', ''math'']"
  by code_simp

text \<open>A write under \<^verbatim>\<open>replace\<close> that returns has put the table, as named, in place of what
  the file held under that name; a table held under a name that differs in case only would
  have made it raise.\<close>

lemma to_sql_replace:
  "to_sql df nm (VConn path) (VStr ''replace'') label store = Inr store' \<Longrightarrow>
   store' = store(path := (store path)(sql_fold nm \<mapsto> (nm, sql_relation label df))) \<and>
   (\<forall>k old. store path (sql_fold nm) = Some (k, old) \<longrightarrow> k = nm)"
  by (auto simp: to_sql_def Let_def split: if_splits option.splits prod.splits)

lemma Database_init_fields:
  "Database_init nm (VPath p) if_exists w = (Inr d, w') \<Longrightarrow>
   d = next_db w \<and> next_db w' = Suc (next_db w) \<and>
   databases w' d ''name'' = Some (VStr nm) \<and>
   databases w' d ''tables'' = Some (VList []) \<and>
   databases w' d ''__setattr__'' = None \<and>
   databases w' d ''add_table_to_database'' = None \<and>
   databases w' d ''if_exists'' =
     Some (VStr (case if_exists of None \<Rightarrow> ''replace'' | Some s \<Rightarrow> s)) \<and>
   databases w' d ''connection'' = Some (VConn (join_path p (nm @ ''.db''))) \<and>
   (\<forall>x. x \<noteq> d \<longrightarrow> databases w' x = databases w x) \<and>
   tables_of w' = tables_of w \<and> sqlite w' = sqlite w \<and> ic_log w' = ic_log w"
  by (auto simp: Database_init_def Let_def)

text \<open>C4 (as amended). For a database whose \<^verbatim>\<open>if_exists\<close> policy is \<^verbatim>\<open>replace\<close>,
  which is what the constructor sets when the argument is left out: when two calls of
  \<^verbatim>\<open>add_table\<close> with tables of the same name both return, the store file of the database's
  connection holds under that name the table as named with exactly the relation of the
  second table, its index column (labelled by its \<^verbatim>\<open>index_label\<close>) followed by its
  columns.\<close>

theorem add_table_replaces_stored:
  assumes pol: "databases w self ''if_exists'' = Some (VStr ''replace'')"
    and con: "databases w self ''connection'' = Some (VConn path)"
    and one: "add_table self t1 w = (None, w1)"
    and two: "add_table self t2 w1 = (None, w2)"
    and n1: "name (tables_of w t1) = n"
    and n2: "name (tables_of w t2) = n"
    and lab: "index_label (tables_of w t2) = Some label"
  shows "sqlite w2 path (sql_fold n) =
           Some (n, sql_relation label (dataframe (tables_of w t2))) \<and>
         (\<forall>nm p w0 d w0'. Database_init nm (VPath p) None w0 = (Inr d, w0') \<longrightarrow>
            databases w0' d ''if_exists'' = Some (VStr ''replace''))"
proof
  from add_table_None [OF one] n1 obtain ts con1 ife1 label1 where
    d1: "databases w1 = (databases w)(self :=
       (databases w self)(''tables'' \<mapsto> VList (ts @ [t1]), n \<mapsto> VTable t1))" and
    c1: "databases w1 self ''connection'' = Some con1" and
    i1: "databases w1 self ''if_exists'' = Some ife1" and
    s1: "to_sql (dataframe (tables_of w t1)) n con1 ife1 label1 (sqlite w) = Inr (sqlite w1)"
    by auto
  from to_sql_Inr_conn [OF s1] c1 i1 have neq: "n \<noteq> ''connection''" "n \<noteq> ''if_exists''"
    by (auto simp: d1)
  have n2': "name (tables_of w1 t2) = n"
    using add_table_keeps_names [OF one] n2 by simp
  have fr: "dataframe (tables_of w1 t2) = dataframe (tables_of w t2)"
    "index_label (tables_of w1 t2) = Some label"
    using add_table_keeps_frames [OF one] lab by simp_all
  from add_table_None [OF two] n2' fr obtain ts' con2 ife2 where
    d2: "databases w2 = (databases w1)(self :=
       (databases w1 self)(''tables'' \<mapsto> VList (ts' @ [t2]), n \<mapsto> VTable t2))" and
    c2: "databases w2 self ''connection'' = Some con2" and
    i2: "databases w2 self ''if_exists'' = Some ife2" and
    s2: "to_sql (dataframe (tables_of w t2)) n con2 ife2 label (sqlite w1) = Inr (sqlite w2)"
    by auto
  from c2 neq con have "con2 = VConn path"
    by (simp add: d2 d1)
  moreover from i2 neq pol have "ife2 = VStr ''replace''"
    by (simp add: d2 d1)
  ultimately have "to_sql (dataframe (tables_of w t2)) n (VConn path) (VStr ''replace'') label
      (sqlite w1) = Inr (sqlite w2)"
    using s2 by simp
  from to_sql_replace [OF this, THEN conjunct1]
  have "sqlite w2 = (sqlite w1)(path := (sqlite w1 path)
      (sql_fold n \<mapsto> (n, sql_relation label (dataframe (tables_of w t2)))))" .
  then show "sqlite w2 path (sql_fold n) =
      Some (n, sql_relation label (dataframe (tables_of w t2)))"
    by simp
next
  show "\<forall>nm p w0 d w0'. Database_init nm (VPath p) None w0 = (Inr d, w0') \<longrightarrow>
            databases w0' d ''if_exists'' = Some (VStr ''replace'')"
    by (auto dest: Database_init_fields)
qed

lemma school_world_built:
  "Database_init ''school'' (VPath ''/data'') None example_world = (Inr 0, school_world)"
  by (simp add: school_world_def prod_eq_iff Database_init_def Let_def example_world_def)

text \<open>The theorem at the two tables named \<^verbatim>\<open>math\<close> of the example world, whose
  database was constructed without an \<^verbatim>\<open>if_exists\<close> argument.\<close>

theorem add_table_replaces_stored_witness:
  "databases school_world 0 ''if_exists'' = Some (VStr ''replace'') \<and>
   sqlite (snd (add_table 0 1 (snd (add_table 0 0 school_world)))) ''/data/school.db'' ''math'' =
     Some (''math'', [(''ID'', [IntV 0]), (''age'', [IntV 17])])"
proof -
  have rel: "sql_relation ''ID'' (dataframe (tables_of school_world 1)) =
      [(''ID'', [IntV 0]), (''age'', [IntV 17])]"
    by code_simp
  have key: "sql_fold ''math'' = ''math''"
    by code_simp
  note inst = add_table_replaces_stored [OF school_world_twice(6,7,1,2,3,4,8)]
  from inst [THEN conjunct2, rule_format, OF school_world_built]
  have "databases school_world 0 ''if_exists'' = Some (VStr ''replace'')" .
  moreover from inst [THEN conjunct1]
  have "sqlite (snd (add_table 0 1 (snd (add_table 0 0 school_world)))) ''/data/school.db'' ''math'' =
     Some (''math'', [(''ID'', [IntV 0]), (''age'', [IntV 17])])"
    unfolding rel key .
  ultimately show ?thesis by (rule conjI)
qed

text \<open>C4 as stated fails for a database constructed with \<^verbatim>\<open>if_exists="append"\<close>: both
  registrations return, and the store then holds the rows of the first table followed by
  the rows of the second, not the second table's relation alone.\<close>

theorem add_table_appends_stored:
  "databases appending_world 0 ''if_exists'' = Some (VStr ''append'') \<and>
   fst (add_table 0 0 appending_world) = None \<and>
   fst (add_table 0 1 (snd (add_table 0 0 appending_world))) = None \<and>
   name (tables_of appending_world 0) = ''math'' \<and>
   name (tables_of appending_world 1) = ''math'' \<and>
   sql_relation ''ID'' (dataframe (tables_of appending_world 1)) =
     [(''ID'', [IntV 0]), (''age'', [IntV 17])] \<and>
   sqlite (snd (add_table 0 1 (snd (add_table 0 0 appending_world)))) ''/data/school.db''
       (sql_fold ''math'') =
     Some (''math'',
           [(''ID'', [IntV 0, IntV 1, IntV 0]), (''age'', [IntV 15, IntV 16, IntV 17])])"
  by code_simp

section \<open>The attribute bound by a registration\<close>

lemma and_then_step: "f w = (None, w1) \<Longrightarrow> and_then f g w = g w1"
  by (simp add: and_then_def)

lemma store_table_databases: "databases (snd (store_table self t w)) = databases w"
  by (simp add: store_table_def add_table_to_database_def Let_def
      split: sum.splits option.splits)

lemma add_table_binds:
  assumes nm: "databases w self ''name'' = Some v"
    and ts: "databases w self ''tables'' = Some (VList ts)"
    and sa: "databases w self ''__setattr__'' = None"
    and ok: "name (tables_of w t) \<notin> {''table_names'', ''__weakref__'', ''__class__'', ''__dict__''}"
  shows "databases (snd (add_table self t w)) self =
     (databases w self)(''tables'' \<mapsto> VList (ts @ [t]), name (tables_of w t) \<mapsto> VTable t)"
proof -
  let ?n = "name (tables_of w t)"
  let ?w1 = "w\<lparr>tables_of := (tables_of w)(t := (tables_of w t)\<lparr>database := Some self, db_name := v\<rparr>)\<rparr>"
  let ?w2 = "?w1\<lparr>databases := (databases ?w1)(self := (databases ?w1 self)(''tables'' \<mapsto> VList (ts @ [t])))\<rparr>"
  let ?w3 = "?w2\<lparr>ic_log := ic_log ?w2 @
        (if hasattr_db (databases ?w2 self) (name (tables_of ?w2 t))
         then [''changing '' @ name (tables_of ?w2 t) @ '' to new value.''] else [])\<rparr>"
  let ?w4 = "?w3\<lparr>databases := (databases ?w3)(self := (databases ?w3 self)(name (tables_of ?w3 t) \<mapsto> VTable t))\<rparr>"
  have s1: "set_owner self t w = (None, ?w1)"
    unfolding set_owner_None using nm by simp
  have s2: "append_table self t ?w1 = (None, ?w2)"
    unfolding append_table_None using ts by simp
  have s3: "warn_existing self t ?w2 = (None, ?w3)"
    by (rule warn_existing_eq)
  have s4: "bind_table self t ?w3 = (None, ?w4)"
    unfolding bind_table_None using sa ok
    by (simp add: setattr_db_def Database_properties_def)
  have "add_table self t w = store_table self t ?w4"
    unfolding add_table_def
    by (simp only: and_then_step [of "set_owner self t" w ?w1, OF s1]
        and_then_step [of "append_table self t" ?w1 ?w2, OF s2]
        and_then_step [of "warn_existing self t" ?w2 ?w3, OF s3]
        and_then_step [of "bind_table self t" ?w3 ?w4, OF s4])
  then show ?thesis
    by (simp add: store_table_databases)
qed

text \<open>C9. A call of \<^verbatim>\<open>add_table\<close> that returns has appended the table to the owned list,
  then bound it as the attribute named by the table's name, and has written it to the store.
  Whether or not the call returns, once the list and the attribute \<^verbatim>\<open>name\<close> are there and
  the table's name is not one the class refuses to set, the attribute of that name holds
  the table afterwards. In particular a table named \<^verbatim>\<open>tables\<close>, \<^verbatim>\<open>name\<close>, \<^verbatim>\<open>connection\<close> or
  \<^verbatim>\<open>cursor\<close> replaces that field, which the constructor had set, by the table object.\<close>

theorem add_table_binds_attribute:
  "(add_table self t w = (None, w') \<longrightarrow>
      (\<exists>ts con ife label.
         databases w self ''tables'' = Some (VList ts) \<and>
         databases w' self =
           (databases w self)(''tables'' \<mapsto> VList (ts @ [t]), name (tables_of w t) \<mapsto> VTable t) \<and>
         to_sql (dataframe (tables_of w t)) (name (tables_of w t)) con ife label (sqlite w) =
           Inr (sqlite w') \<and>
         databases w' self (name (tables_of w t)) = Some (VTable t))) \<and>
   (databases w self ''name'' = Some v \<and> databases w self ''tables'' = Some (VList ts) \<and>
    databases w self ''__setattr__'' = None \<and>
    name (tables_of w t) \<notin> {''table_names'', ''__weakref__'', ''__class__'', ''__dict__''} \<longrightarrow>
      databases (snd (add_table self t w)) self (name (tables_of w t)) = Some (VTable t)) \<and>
   (databases w self ''name'' = Some v \<and> databases w self ''tables'' = Some (VList ts) \<and>
    databases w self ''__setattr__'' = None \<and>
    name (tables_of w t) \<in> {''tables'', ''name'', ''connection'', ''cursor''} \<longrightarrow>
      databases (snd (add_table self t w)) self (name (tables_of w t)) = Some (VTable t)) \<and>
   (Database_init nm (VPath p) pol w0 = (Inr d, w1) \<longrightarrow>
      databases w1 d ''name'' = Some (VStr nm) \<and>
      databases w1 d ''tables'' = Some (VList []) \<and>
      databases w1 d ''connection'' = Some (VConn (join_path p (nm @ ''.db''))) \<and>
      databases w1 d ''cursor'' = Some (VCursor (join_path p (nm @ ''.db''))) \<and>
      databases w1 d ''__setattr__'' = None)"
proof (intro conjI impI)
  assume "add_table self t w = (None, w')"
  from add_table_None [OF this] obtain ts con ife label where
    "databases w self ''tables'' = Some (VList ts)"
    "databases w' = (databases w)(self :=
       (databases w self)(''tables'' \<mapsto> VList (ts @ [t]), name (tables_of w t) \<mapsto> VTable t))"
    "to_sql (dataframe (tables_of w t)) (name (tables_of w t)) con ife label (sqlite w) =
       Inr (sqlite w')"
    by auto
  moreover from this(2) have
    "databases w' self =
       (databases w self)(''tables'' \<mapsto> VList (ts @ [t]), name (tables_of w t) \<mapsto> VTable t)"
    "databases w' self (name (tables_of w t)) = Some (VTable t)"
    by simp_all
  ultimately show "\<exists>ts con ife label.
         databases w self ''tables'' = Some (VList ts) \<and>
         databases w' self =
           (databases w self)(''tables'' \<mapsto> VList (ts @ [t]), name (tables_of w t) \<mapsto> VTable t) \<and>
         to_sql (dataframe (tables_of w t)) (name (tables_of w t)) con ife label (sqlite w) =
           Inr (sqlite w') \<and>
         databases w' self (name (tables_of w t)) = Some (VTable t)"
    by blast
next
  assume "databases w self ''name'' = Some v \<and> databases w self ''tables'' = Some (VList ts) \<and>
    databases w self ''__setattr__'' = None \<and>
    name (tables_of w t) \<notin> {''table_names'', ''__weakref__'', ''__class__'', ''__dict__''}"
  then show "databases (snd (add_table self t w)) self (name (tables_of w t)) = Some (VTable t)"
    by (simp add: add_table_binds)
next
  assume a: "databases w self ''name'' = Some v \<and> databases w self ''tables'' = Some (VList ts) \<and>
    databases w self ''__setattr__'' = None \<and>
    name (tables_of w t) \<in> {''tables'', ''name'', ''connection'', ''cursor''}"
  then have "name (tables_of w t) \<notin> {''table_names'', ''__weakref__'', ''__class__'', ''__dict__''}"
    by auto
  with a show "databases (snd (add_table self t w)) self (name (tables_of w t)) = Some (VTable t)"
    by (simp add: add_table_binds)
next
  assume "Database_init nm (VPath p) pol w0 = (Inr d, w1)"
  then show "databases w1 d ''name'' = Some (VStr nm)"
    and "databases w1 d ''tables'' = Some (VList [])"
    and "databases w1 d ''connection'' = Some (VConn (join_path p (nm @ ''.db'')))"
    and "databases w1 d ''cursor'' = Some (VCursor (join_path p (nm @ ''.db'')))"
    and "databases w1 d ''__setattr__'' = None"
    by (auto simp: Database_init_def Let_def)
qed

lemma school_world_fields:
  "databases school_world 0 ''name'' = Some (VStr ''school'')"
  "databases school_world 0 ''__setattr__'' = None"
  "name (tables_of school_world 4) = ''connection''"
  "name (tables_of school_world 6) = ''tables''"
  by code_simp+

lemma school_world_tables:
  "add_table 0 6 school_world = (None, snd (add_table 0 6 school_world))"
  by (simp add: prod_eq_iff) code_simp

text \<open>The theorem at the tables named \<^verbatim>\<open>connection\<close> and \<^verbatim>\<open>tables\<close> of the example
  world: the connection and the owned list of the database are replaced by the table.\<close>

theorem add_table_binds_attribute_witness:
  "databases school_world 0 ''connection'' = Some (VConn ''/data/school.db'') \<and>
   databases (snd (add_table 0 4 school_world)) 0 ''connection'' = Some (VTable 4) \<and>
   databases school_world 0 ''tables'' = Some (VList []) \<and>
   databases (snd (add_table 0 6 school_world)) 0 ''tables'' = Some (VTable 6)"
proof -
  note inst = add_table_binds_attribute [of 0 _ school_world _ "VStr ''school''" "[]"]
  have four: "name (tables_of school_world 4) \<in> {''tables'', ''name'', ''connection'', ''cursor''}"
    by (simp add: school_world_fields)
  from inst [of 4, THEN conjunct2, THEN conjunct2, THEN conjunct1] four
  have "databases (snd (add_table 0 4 school_world)) 0 ''connection'' = Some (VTable 4)"
    by (simp add: school_world_fields school_world_twice(5))
  moreover from inst [of 6 "snd (add_table 0 6 school_world)", THEN conjunct1] school_world_tables
  have "databases (snd (add_table 0 6 school_world)) 0 ''tables'' = Some (VTable 6)"
    by (simp add: school_world_fields)
  ultimately show ?thesis
    by (simp add: school_world_twice(5,7))
qed

section \<open>The database generator\<close>

lemma register_effect:
  assumes "add_table d t (update_table t (\<lambda>x. x\<lparr>database := Some d\<rparr>) w) = (None, w')"
  shows "\<exists>v ts con ife label.
    databases w d ''name'' = Some v \<and>
    databases w d ''tables'' = Some (VList ts) \<and>
    tables_of w' = (tables_of w)(t := (tables_of w t)\<lparr>database := Some d, db_name := v\<rparr>) \<and>
    databases w' = (databases w)(d :=
       (databases w d)(''tables'' \<mapsto> VList (ts @ [t]), name (tables_of w t) \<mapsto> VTable t)) \<and>
    next_db w' = next_db w \<and>
    databases w' d ''connection'' = Some con \<and>
    databases w' d ''if_exists'' = Some ife \<and>
    index_label (tables_of w t) = Some label \<and>
    to_sql (dataframe (tables_of w t)) (name (tables_of w t)) con ife label (sqlite w) =
      Inr (sqlite w')"
  using add_table_None [OF assms] by (auto simp: update_table_def)

text \<open>A registration that returns, with a database that has its connection and the
  \<^verbatim>\<open>replace\<close> policy: the table is named neither \<^verbatim>\<open>connection\<close> nor \<^verbatim>\<open>if_exists\<close>, and
  the store file has taken the table's relation under its name.\<close>

lemma register_store:
  assumes reg: "add_table d t (update_table t (\<lambda>x. x\<lparr>database := Some d\<rparr>) w) = (None, w')"
    and con: "databases w d ''connection'' = Some (VConn p)"
    and pol: "databases w d ''if_exists'' = Some (VStr ''replace'')"
  shows "name (tables_of w t) \<noteq> ''connection'' \<and> name (tables_of w t) \<noteq> ''if_exists'' \<and>
     (\<exists>label. index_label (tables_of w t) = Some label \<and>
        sqlite w' = (sqlite w)(p := (sqlite w p)(sql_fold (name (tables_of w t)) \<mapsto>
           (name (tables_of w t), sql_relation label (dataframe (tables_of w t))))) \<and>
        (\<forall>k old. sqlite w p (sql_fold (name (tables_of w t))) = Some (k, old) \<longrightarrow>
           k = name (tables_of w t)))"
proof -
  let ?n = "name (tables_of w t)"
  from register_effect [OF reg] obtain ts c ife label where
    D': "databases w' = (databases w)(d :=
       (databases w d)(''tables'' \<mapsto> VList (ts @ [t]), ?n \<mapsto> VTable t))" and
    c: "databases w' d ''connection'' = Some c" and
    i: "databases w' d ''if_exists'' = Some ife" and
    lab: "index_label (tables_of w t) = Some label" and
    sql: "to_sql (dataframe (tables_of w t)) ?n c ife label (sqlite w) = Inr (sqlite w')"
    by blast
  from to_sql_Inr_conn [OF sql] obtain path where
    cp: "c = VConn path" and ip: "ife \<in> {VStr ''fail'', VStr ''replace'', VStr ''append''}"
    by blast
  from c cp have n1: "?n \<noteq> ''connection''"
    by (auto simp: D')
  from i ip have n2: "?n \<noteq> ''if_exists''"
    by (auto simp: D')
  from c n1 con have c': "c = VConn p"
    by (simp add: D')
  from i n2 pol have i': "ife = VStr ''replace''"
    by (simp add: D')
  from sql have "to_sql (dataframe (tables_of w t)) ?n (VConn p) (VStr ''replace'') label
      (sqlite w) = Inr (sqlite w')"
    by (simp only: c' i')
  from to_sql_replace [OF this] lab n1 n2 show ?thesis
    by blast
qed

lemma add_registers:
  "add t (update_table t (\<lambda>x. x\<lparr>database := Some d\<rparr>) w) = (None, w') \<longleftrightarrow>
   databases w d ''add_table'' = None \<and>
   add_table d t (update_table t (\<lambda>x. x\<lparr>database := Some d\<rparr>) w) = (None, w')"
  by (auto simp: add_def update_table_def)

lemma dict_set_fresh: "k \<notin> fst ` set d \<Longrightarrow> dict_set k v d = d @ [(k, v)]"
  by (induction d) auto

lemma map_of_None_keys: "map_of d k = None \<longleftrightarrow> k \<notin> fst ` set d"
  by (simp add: map_of_eq_None_iff)

lemma map_of_snoc_old: "map_of d k = Some v \<Longrightarrow> map_of (d @ [(n, x)]) k = Some v"
  by (simp add: map_add_def)

lemma join_path_db: "join_path folder (a @ ''.db'') = join_path folder (b @ ''.db'') \<longleftrightarrow> a = b"
  by (simp add: join_path_def)

text \<open>Two keys of a mapping whose values are distinct objects, kept under the same object,
  are one key.\<close>

lemma same_value_same_key:
  assumes "distinct (map snd ret)" and "map_of ret a = Some d" and "map_of ret b = Some d"
  shows "a = b"
proof -
  from assms(2,3) have "(a, d) \<in> set ret" "(b, d) \<in> set ret"
    by (auto dest: map_of_SomeD)
  moreover from assms(1) have "inj_on snd (set ret)"
    by (simp add: distinct_map)
  ultimately show ?thesis
    using inj_onD [of snd "set ret" "(a, d)" "(b, d)"] by simp
qed

text \<open>Under the invariant, a table whose \<^verbatim>\<open>db_name\<close> is a string has the one it started
  with; and a table seen refers back to the database kept under it.\<close>

lemma loop_inv_db_name:
  assumes inv: "loop_inv folder w0 seen ret w"
    and dbn: "db_name (tables_of w t) = VStr n"
  shows "db_name (tables_of w0 t) = VStr n"
proof (cases "t \<in> seen")
  case False
  with inv dbn show ?thesis
    unfolding loop_inv_def by auto
next
  case True
  with inv obtain k d where
    "db_name (tables_of w0 t) = VStr k" "registered folder w0 seen w k d t"
    unfolding loop_inv_def by blast
  with dbn show ?thesis
    by (auto simp: registered_def)
qed

lemma loop_inv_seen_db:
  assumes inv: "loop_inv folder w0 seen ret w"
    and dbn: "db_name (tables_of w t) = VStr n"
    and old: "map_of ret n = Some d"
    and t: "t \<in> seen"
  shows "database (tables_of w t) = Some d"
proof -
  from inv t obtain k b where
    k: "db_name (tables_of w0 t) = VStr k" "map_of ret k = Some b"
      "registered folder w0 seen w k b t"
    unfolding loop_inv_def by blast
  from loop_inv_db_name [OF inv dbn] k(1) have "k = n" by simp
  with k(2) old have "b = d" by simp
  with k(3) show ?thesis
    by (simp add: registered_def)
qed

text \<open>Constructing the database for a name not met before keeps the invariant, with the
  new database at the end of the mapping.\<close>

lemma loop_inv_init:
  assumes inv: "loop_inv folder w0 seen ret w"
    and new: "map_of ret n = None"
    and ini: "Database_init n (VPath folder) None w = (Inr d, w1)"
  shows "loop_inv folder w0 seen (ret @ [(n, d)]) w1"
proof -
  from inv have
    A: "\<forall>x. name (tables_of w x) = name (tables_of w0 x) \<and>
          index_label (tables_of w x) = index_label (tables_of w0 x) \<and>
          dataframe (tables_of w x) = dataframe (tables_of w0 x) \<and>
          csv_path (tables_of w x) = csv_path (tables_of w0 x)" and
    B: "\<forall>x. x \<notin> seen \<longrightarrow> db_name (tables_of w x) = db_name (tables_of w0 x)" and
    C: "distinct (map fst ret)" and
    N: "next_db w0 \<le> next_db w" and
    F: "map snd ret = [next_db w0 ..< next_db w]" and
    G: "\<And>e. e \<in> set ret \<Longrightarrow>
          databases w (snd e) ''connection'' = Some (VConn (join_path folder (fst e @ ''.db''))) \<and>
          databases w (snd e) ''if_exists'' = Some (VStr ''replace'') \<and>
          (databases w (snd e) ''name'' = Some (VStr (fst e)) \<or>
           (\<exists>x\<in>seen. name (tables_of w0 x) = ''name'' \<and>
                 databases w (snd e) ''name'' = Some (VTable x))) \<and>
          owns_seen w0 seen w (snd e)" and
    E: "\<And>x. x \<in> seen \<Longrightarrow> \<exists>n d. db_name (tables_of w0 x) = VStr n \<and>
          map_of ret n = Some d \<and> registered folder w0 seen w n d x"
    unfolding loop_inv_def by blast+
  from Database_init_fields [OF ini] have
    d: "d = next_db w" and N1: "next_db w1 = Suc (next_db w)" and
    nm1: "databases w1 d ''name'' = Some (VStr n)" and
    ts1: "databases w1 d ''tables'' = Some (VList [])" and
    pol1: "databases w1 d ''if_exists'' = Some (VStr ''replace'')" and
    con1: "databases w1 d ''connection'' = Some (VConn (join_path folder (n @ ''.db'')))" and
    oth: "\<And>x. x \<noteq> d \<Longrightarrow> databases w1 x = databases w x" and
    T1: "tables_of w1 = tables_of w" and S1: "sqlite w1 = sqlite w"
    by auto
  have fresh: "n \<notin> fst ` set ret"
    using new by (simp add: map_of_None_keys)
  have older: "snd e \<noteq> d" if "e \<in> set ret" for e
  proof -
    from that have "snd e \<in> set (map snd ret)" by simp
    then show ?thesis unfolding F d by simp
  qed
  have older': "b \<noteq> d" if "map_of ret k = Some b" for k b
    using older [OF map_of_SomeD [OF that]] by simp
  have reg_same: "registered folder w0 seen w1 k b x = registered folder w0 seen w k b x"
    if "b \<noteq> d" for k b x
    using that by (simp add: registered_def T1 S1 oth)
  have own_same: "owns_seen w0 seen w1 b = owns_seen w0 seen w b" if "b \<noteq> d" for b
    using that by (simp add: owns_seen_def T1 oth)
  have no_ref: "database (tables_of w x) \<noteq> Some d" if "x \<in> seen" for x
  proof -
    from E [OF that] obtain k b where "map_of ret k = Some b" "registered folder w0 seen w k b x"
      by blast
    then have "database (tables_of w x) = Some b" "b \<noteq> d"
      by (simp_all add: registered_def older')
    then show ?thesis by simp
  qed
  have C': "distinct (map fst (ret @ [(n, d)]))"
    using C fresh by simp
  have N2: "next_db w0 \<le> next_db w1"
    using N by (simp add: N1)
  have F': "map snd (ret @ [(n, d)]) = [next_db w0 ..< next_db w1]"
    using F N by (simp add: N1 d)
  have G': "databases w1 (snd e) ''connection'' = Some (VConn (join_path folder (fst e @ ''.db''))) \<and>
          databases w1 (snd e) ''if_exists'' = Some (VStr ''replace'') \<and>
          (databases w1 (snd e) ''name'' = Some (VStr (fst e)) \<or>
           (\<exists>x\<in>seen. name (tables_of w0 x) = ''name'' \<and>
                 databases w1 (snd e) ''name'' = Some (VTable x))) \<and>
          owns_seen w0 seen w1 (snd e)" if e: "e \<in> set (ret @ [(n, d)])" for e
  proof (cases "e = (n, d)")
    case True
    have "owns_seen w0 seen w1 d"
      unfolding owns_seen_def using ts1 no_ref by (simp add: T1)
    with True nm1 pol1 con1 show ?thesis by simp
  next
    case False
    with e have e': "e \<in> set ret" by simp
    from G [OF e'] older [OF e'] show ?thesis
      by (simp add: oth own_same)
  qed
  have E': "\<exists>k b. db_name (tables_of w0 x) = VStr k \<and> map_of (ret @ [(n, d)]) k = Some b \<and>
          registered folder w0 seen w1 k b x" if "x \<in> seen" for x
  proof -
    from E [OF that] obtain k b where
      k: "db_name (tables_of w0 x) = VStr k" "map_of ret k = Some b"
        "registered folder w0 seen w k b x"
      by blast
    from k(2) have "map_of (ret @ [(n, d)]) k = Some b"
      by (rule map_of_snoc_old)
    moreover from k(3) older' [OF k(2)] have "registered folder w0 seen w1 k b x"
      by (simp add: reg_same)
    ultimately show ?thesis using k(1) by blast
  qed
  show ?thesis
    unfolding loop_inv_def
    using A B C' N2 F' G' E' by (simp add: T1)
qed

text \<open>Registering a table with the database kept under its database name keeps the
  invariant, with the table among those seen.\<close>

lemma loop_inv_register:
  assumes inv: "loop_inv folder w0 seen ret w"
    and dbn: "db_name (tables_of w t) = VStr n"
    and old: "map_of ret n = Some d"
    and reg: "add_table d t (update_table t (\<lambda>x. x\<lparr>database := Some d\<rparr>) w) = (None, w')"
  shows "loop_inv folder w0 (insert t seen) ret w'"
proof -
  let ?p = "join_path folder (n @ ''.db'')"
  let ?nm = "name (tables_of w0 t)"
  from inv have
    A: "\<And>x. name (tables_of w x) = name (tables_of w0 x)" and
    A2: "\<And>x. index_label (tables_of w x) = index_label (tables_of w0 x)" and
    A3: "\<And>x. dataframe (tables_of w x) = dataframe (tables_of w0 x)" and
    A4: "\<And>x. csv_path (tables_of w x) = csv_path (tables_of w0 x)" and
    B: "\<And>x. x \<notin> seen \<Longrightarrow> db_name (tables_of w x) = db_name (tables_of w0 x)" and
    C: "distinct (map fst ret)" and
    N: "next_db w0 \<le> next_db w" and
    F: "map snd ret = [next_db w0 ..< next_db w]" and
    G: "\<And>e. e \<in> set ret \<Longrightarrow>
          databases w (snd e) ''connection'' = Some (VConn (join_path folder (fst e @ ''.db''))) \<and>
          databases w (snd e) ''if_exists'' = Some (VStr ''replace'') \<and>
          (databases w (snd e) ''name'' = Some (VStr (fst e)) \<or>
           (\<exists>x\<in>seen. name (tables_of w0 x) = ''name'' \<and>
                 databases w (snd e) ''name'' = Some (VTable x))) \<and>
          owns_seen w0 seen w (snd e)" and
    E: "\<And>x. x \<in> seen \<Longrightarrow> \<exists>n d. db_name (tables_of w0 x) = VStr n \<and>
          map_of ret n = Some d \<and> registered folder w0 seen w n d x"
    unfolding loop_inv_def by blast+
  have mem: "(n, d) \<in> set ret"
    using old by (rule map_of_SomeD)
  from G [OF mem] have
    con: "databases w d ''connection'' = Some (VConn ?p)" and
    pol: "databases w d ''if_exists'' = Some (VStr ''replace'')" and
    nmd: "databases w d ''name'' = Some (VStr n) \<or>
           (\<exists>x\<in>seen. name (tables_of w0 x) = ''name'' \<and> databases w d ''name'' = Some (VTable x))" and
    own: "owns_seen w0 seen w d"
    by simp_all
  from register_effect [OF reg] obtain v ts where
    v: "databases w d ''name'' = Some v" and
    ts: "databases w d ''tables'' = Some (VList ts)" and
    T': "tables_of w' = (tables_of w)(t := (tables_of w t)\<lparr>database := Some d, db_name := v\<rparr>)" and
    D': "databases w' = (databases w)(d :=
       (databases w d)(''tables'' \<mapsto> VList (ts @ [t]), name (tables_of w t) \<mapsto> VTable t))" and
    N': "next_db w' = next_db w"
    by blast
  from register_store [OF reg con pol] obtain label where
    n1: "?nm \<noteq> ''connection''" and n2: "?nm \<noteq> ''if_exists''" and
    lab: "index_label (tables_of w0 t) = Some label" and
    S': "sqlite w' = (sqlite w)(?p := (sqlite w ?p)(sql_fold ?nm \<mapsto>
           (?nm, sql_relation label (dataframe (tables_of w0 t)))))" and
    clash: "\<And>k r. sqlite w ?p (sql_fold ?nm) = Some (k, r) \<Longrightarrow> k = ?nm"
    unfolding A A2 A3 by blast
  have D2: "databases w' = (databases w)(d :=
       (databases w d)(''tables'' \<mapsto> VList (ts @ [t]), ?nm \<mapsto> VTable t))"
    using D' by (simp only: A)
  have v_cases: "v = VStr n \<or> (\<exists>x\<in>seen. name (tables_of w0 x) = ''name'' \<and> v = VTable x)"
    using nmd v by auto
  have dist: "distinct (map snd ret)"
    unfolding F by simp
  have key_n: "k = n" if "map_of ret k = Some d" for k
    using same_value_same_key [OF dist that old] .
  have seen_db: "database (tables_of w t) = Some d" if "t \<in> seen"
    using loop_inv_seen_db [OF inv dbn old that] .
  have dbn0: "db_name (tables_of w0 t) = VStr n"
    using loop_inv_db_name [OF inv dbn] .
  have list_d: "\<And>x. x \<in> seen \<Longrightarrow> database (tables_of w x) = Some d \<Longrightarrow> x \<in> set ts"
    using own ts unfolding owns_seen_def by auto
  have A': "\<forall>x. name (tables_of w' x) = name (tables_of w0 x) \<and>
          index_label (tables_of w' x) = index_label (tables_of w0 x) \<and>
          dataframe (tables_of w' x) = dataframe (tables_of w0 x) \<and>
          csv_path (tables_of w' x) = csv_path (tables_of w0 x)"
    using A A2 A3 A4 by (simp add: T')
  have B': "\<forall>x. x \<notin> insert t seen \<longrightarrow> db_name (tables_of w' x) = db_name (tables_of w0 x)"
    using B by (simp add: T')
  have N2: "next_db w0 \<le> next_db w'"
    using N by (simp add: N')
  have F': "map snd ret = [next_db w0 ..< next_db w']"
    using F by (simp add: N')
  have own_d: "owns_seen w0 (insert t seen) w' d"
  proof (cases "?nm = ''tables''")
    case True
    then have "databases w' d ''tables'' = Some (VTable t)"
      by (simp add: D2)
    moreover have "database (tables_of w' t) = Some d"
      by (simp add: T')
    ultimately show ?thesis
      unfolding owns_seen_def using True by blast
  next
    case False
    then have "databases w' d ''tables'' = Some (VList (ts @ [t]))"
      by (simp add: D2)
    moreover have "\<forall>x\<in>insert t seen. database (tables_of w' x) = Some d \<longrightarrow> x \<in> set (ts @ [t])"
      using list_d by (auto simp: T')
    ultimately show ?thesis
      unfolding owns_seen_def by blast
  qed
  have own_other: "owns_seen w0 (insert t seen) w' b" if b: "b \<noteq> d" and ob: "owns_seen w0 seen w b" for b
  proof -
    have db: "databases w' b = databases w b"
      using b by (simp add: D2)
    have tb: "database (tables_of w' x) = Some b \<longleftrightarrow> x \<noteq> t \<and> database (tables_of w x) = Some b" for x
      using b by (auto simp: T')
    from ob consider
      (list) ts0 where "databases w b ''tables'' = Some (VList ts0)"
        "\<forall>x\<in>seen. database (tables_of w x) = Some b \<longrightarrow> x \<in> set ts0"
      | (gone) x where "x \<in> seen" "name (tables_of w0 x) = ''tables''"
        "database (tables_of w x) = Some b" "databases w b ''tables'' = Some (VTable x)"
      unfolding owns_seen_def by blast
    then show ?thesis
    proof cases
      case list
      then have "databases w' b ''tables'' = Some (VList ts0) \<and>
          (\<forall>x\<in>insert t seen. database (tables_of w' x) = Some b \<longrightarrow> x \<in> set ts0)"
        by (simp add: db tb)
      then show ?thesis
        unfolding owns_seen_def by blast
    next
      case gone
      from gone(1,3) seen_db b have "x \<noteq> t" by auto
      with gone have "x \<in> insert t seen \<and> name (tables_of w0 x) = ''tables'' \<and>
          database (tables_of w' x) = Some b \<and> databases w' b ''tables'' = Some (VTable x)"
        by (simp add: db tb)
      then show ?thesis
        unfolding owns_seen_def by blast
    qed
  qed
  have G': "databases w' (snd e) ''connection'' = Some (VConn (join_path folder (fst e @ ''.db''))) \<and>
          databases w' (snd e) ''if_exists'' = Some (VStr ''replace'') \<and>
          (databases w' (snd e) ''name'' = Some (VStr (fst e)) \<or>
           (\<exists>x\<in>insert t seen. name (tables_of w0 x) = ''name'' \<and>
                 databases w' (snd e) ''name'' = Some (VTable x))) \<and>
          owns_seen w0 (insert t seen) w' (snd e)" if e: "e \<in> set ret" for e
  proof (cases "snd e = d")
    case True
    from e C have "map_of ret (fst e) = Some (snd e)"
      by (simp add: map_of_is_SomeI)
    with True have fe: "fst e = n"
      by (simp add: key_n)
    have c': "databases w' d ''connection'' = Some (VConn ?p)"
      using con n1 by (simp add: D2)
    have p': "databases w' d ''if_exists'' = Some (VStr ''replace'')"
      using pol n2 by (simp add: D2)
    have nm': "databases w' d ''name'' = Some (VStr n) \<or>
           (\<exists>x\<in>insert t seen. name (tables_of w0 x) = ''name'' \<and>
                 databases w' d ''name'' = Some (VTable x))"
    proof (cases "?nm = ''name''")
      case True
      then have "databases w' d ''name'' = Some (VTable t)"
        by (simp add: D2)
      with True show ?thesis by blast
    next
      case False
      then have "databases w' d ''name'' = databases w d ''name''"
        by (simp add: D2)
      with nmd show ?thesis by auto
    qed
    from c' p' nm' own_d show ?thesis
      by (simp only: True fe simp_thms)
  next
    case False
    then have db: "databases w' (snd e) = databases w (snd e)"
      by (simp add: D2)
    from G [OF e] own_other [OF False] show ?thesis
      unfolding db by auto
  qed
  have reg_t: "registered folder w0 (insert t seen) w' n d t"
  proof -
    have "database (tables_of w' t) = Some d"
      by (simp add: T')
    moreover have "db_name (tables_of w' t) = VStr n \<or>
        (\<exists>x\<in>insert t seen. name (tables_of w0 x) = ''name'' \<and> db_name (tables_of w' t) = VTable x)"
      using v_cases by (auto simp: T')
    moreover have "t \<in> insert t seen \<and> ?nm = ?nm \<and> database (tables_of w' t) = Some d \<and>
        databases w' d ?nm = Some (VTable t) \<and> index_label (tables_of w0 t) = Some label \<and>
        sqlite w' ?p (sql_fold ?nm) = Some (?nm, sql_relation label (dataframe (tables_of w0 t)))"
      using lab by (simp add: T' D2 S')
    ultimately show ?thesis
      unfolding registered_def by blast
  qed
  have reg_x: "registered folder w0 (insert t seen) w' k b x"
    if x: "x \<in> seen" "x \<noteq> t" and k: "map_of ret k = Some b"
      and r: "registered folder w0 seen w k b x" for x k b
  proof -
    from r obtain y l where
      bx: "database (tables_of w x) = Some b" and
      dn: "db_name (tables_of w x) = VStr k \<or>
        (\<exists>z\<in>seen. name (tables_of w0 z) = ''name'' \<and> db_name (tables_of w x) = VTable z)" and
      y: "y \<in> seen" "name (tables_of w0 y) = name (tables_of w0 x)"
        "database (tables_of w y) = Some b"
        "databases w b (name (tables_of w0 x)) = Some (VTable y)"
        "index_label (tables_of w0 y) = Some l"
        "sqlite w (join_path folder (k @ ''.db'')) (sql_fold (name (tables_of w0 x))) =
           Some (name (tables_of w0 x), sql_relation l (dataframe (tables_of w0 y)))"
      unfolding registered_def by blast
    have bx': "database (tables_of w' x) = Some b"
      using bx x(2) by (simp add: T')
    have dn': "db_name (tables_of w' x) = VStr k \<or>
        (\<exists>z\<in>insert t seen. name (tables_of w0 z) = ''name'' \<and> db_name (tables_of w' x) = VTable z)"
      using dn x(2) by (auto simp: T')
    have third: "\<exists>z\<in>insert t seen. \<exists>l.
        name (tables_of w0 z) = name (tables_of w0 x) \<and>
        database (tables_of w' z) = Some b \<and>
        databases w' b (name (tables_of w0 x)) = Some (VTable z) \<and>
        index_label (tables_of w0 z) = Some l \<and>
        sqlite w' (join_path folder (k @ ''.db'')) (sql_fold (name (tables_of w0 x))) =
          Some (name (tables_of w0 x), sql_relation l (dataframe (tables_of w0 z)))"
    proof (cases "b = d")
      case False
      with k old have kn: "k \<noteq> n" by auto
      from y(1,3) seen_db False have yt: "y \<noteq> t" by auto
      have "y \<in> insert t seen \<and>
        name (tables_of w0 y) = name (tables_of w0 x) \<and>
        database (tables_of w' y) = Some b \<and>
        databases w' b (name (tables_of w0 x)) = Some (VTable y) \<and>
        index_label (tables_of w0 y) = Some l \<and>
        sqlite w' (join_path folder (k @ ''.db'')) (sql_fold (name (tables_of w0 x))) =
          Some (name (tables_of w0 x), sql_relation l (dataframe (tables_of w0 y)))"
        using y yt False kn by (simp add: T' D2 S' join_path_db)
      then show ?thesis by blast
    next
      case True
      with k have kn: "k = n" by (simp add: key_n)
      show ?thesis
      proof (cases "name (tables_of w0 x) = ?nm")
        case same: True
        have "t \<in> insert t seen \<and>
          name (tables_of w0 t) = name (tables_of w0 x) \<and>
          database (tables_of w' t) = Some b \<and>
          databases w' b (name (tables_of w0 x)) = Some (VTable t) \<and>
          index_label (tables_of w0 t) = Some label \<and>
          sqlite w' (join_path folder (k @ ''.db'')) (sql_fold (name (tables_of w0 x))) =
            Some (name (tables_of w0 x), sql_relation label (dataframe (tables_of w0 t)))"
          using lab by (simp add: T' D2 S' True kn same)
        then show ?thesis by blast
      next
        case diff: False
        from y(2) diff have yt: "y \<noteq> t" by auto
        from y(4) ts True have nt: "name (tables_of w0 x) \<noteq> ''tables''" by auto
        have nf: "sql_fold (name (tables_of w0 x)) \<noteq> sql_fold ?nm"
        proof
          assume "sql_fold (name (tables_of w0 x)) = sql_fold ?nm"
          with y(6) kn have "sqlite w ?p (sql_fold ?nm) =
              Some (name (tables_of w0 x), sql_relation l (dataframe (tables_of w0 y)))"
            by simp
          from clash [OF this] diff show False by simp
        qed
        have "y \<in> insert t seen \<and>
          name (tables_of w0 y) = name (tables_of w0 x) \<and>
          database (tables_of w' y) = Some b \<and>
          databases w' b (name (tables_of w0 x)) = Some (VTable y) \<and>
          index_label (tables_of w0 y) = Some l \<and>
          sqlite w' (join_path folder (k @ ''.db'')) (sql_fold (name (tables_of w0 x))) =
            Some (name (tables_of w0 x), sql_relation l (dataframe (tables_of w0 y)))"
          using y yt diff nt nf by (simp add: T' D2 S' True kn)
        then show ?thesis by blast
      qed
    qed
    from bx' dn' third show ?thesis
      unfolding registered_def by blast
  qed
  have E': "\<exists>k b. db_name (tables_of w0 x) = VStr k \<and> map_of ret k = Some b \<and>
          registered folder w0 (insert t seen) w' k b x" if "x \<in> insert t seen" for x
  proof (cases "x = t")
    case True
    with dbn0 old reg_t show ?thesis by blast
  next
    case False
    with that have xs: "x \<in> seen" by simp
    from E [OF xs] obtain k b where
      k: "db_name (tables_of w0 x) = VStr k" "map_of ret k = Some b"
        "registered folder w0 seen w k b x"
      by blast
    from reg_x [OF xs False k(2,3)] k(1,2) show ?thesis by blast
  qed
  show ?thesis
    unfolding loop_inv_def
    using A' B' C N2 F' G' E' by simp
qed

lemma Database_init_name:
  "Database_init n (VPath folder) pol w = (Inr d, w1) \<Longrightarrow>
   getattr_db (databases w1 d) ''name'' = Inr (VStr n)"
  by (auto simp: Database_init_def Let_def getattr_db_def)

text \<open>What one iteration of the loop that does not raise has done.\<close>

lemma create_loop_Cons_Inr:
  assumes "create_loop D (t # rest) ret w = (Inr ret', w')"
  shows "\<exists>n. db_name (tables_of w t) = VStr n \<and>
     ((\<exists>d w''. map_of ret n = Some d \<and>
         add_table d t (update_table t (\<lambda>x. x\<lparr>database := Some d\<rparr>) w) = (None, w'') \<and>
         create_loop D rest ret w'' = (Inr ret', w')) \<or>
      (\<exists>d w1 w''. map_of ret n = None \<and>
         Database_init n (VPath (parent_path (csv_path (tables_of w (snd (last D)))))) None w =
           (Inr d, w1) \<and>
         add_table d t (update_table t (\<lambda>x. x\<lparr>database := Some d\<rparr>) w1) = (None, w'') \<and>
         create_loop D rest (dict_set n d ret) w'' = (Inr ret', w')))"
proof (cases "db_name (tables_of w t)")
  case (VStr n)
  show ?thesis
  proof (cases "map_of ret n")
    case (Some d)
    obtain r w'' where a: "add t (update_table t (\<lambda>x. x\<lparr>database := Some d\<rparr>) w) = (r, w'')"
      by (cases "add t (update_table t (\<lambda>x. x\<lparr>database := Some d\<rparr>) w)")
    with assms VStr Some have "r = None" and "create_loop D rest ret w'' = (Inr ret', w')"
      by (auto split: option.splits)
    with a VStr Some show ?thesis
      by (auto simp: add_registers)
  next
    case None
    let ?folder = "parent_path (csv_path (tables_of w (snd (last D))))"
    obtain q w1 where i: "Database_init n (VPath ?folder) None w = (q, w1)"
      by (cases "Database_init n (VPath ?folder) None w")
    from assms VStr None have nonempty: "D \<noteq> []"
      by (auto split: if_splits)
    with assms VStr None i obtain d where q: "q = Inr d"
      by (cases q) (auto simp: Let_def)
    note nm = Database_init_name [OF i [unfolded q]]
    obtain r w'' where a: "add t (update_table t (\<lambda>x. x\<lparr>database := Some d\<rparr>) w1) = (r, w'')"
      by (cases "add t (update_table t (\<lambda>x. x\<lparr>database := Some d\<rparr>) w1)")
    with assms VStr None i q nm nonempty have "r = None" and
      "create_loop D rest (dict_set n d ret) w'' = (Inr ret', w')"
      by (auto simp: Let_def split: option.splits)
    with a VStr None i q show ?thesis
      by (auto simp: add_registers)
  qed
qed (use assms in auto)

lemma create_loop_inv:
  assumes "create_loop D ts ret w = (Inr ret', w')"
    and "loop_inv (parent_path (csv_path (tables_of w0 (snd (last D))))) w0 seen ret w"
    and "fst ` set ret = {n. \<exists>t\<in>seen. db_name (tables_of w0 t) = VStr n}"
  shows "loop_inv (parent_path (csv_path (tables_of w0 (snd (last D))))) w0 (seen \<union> set ts) ret' w' \<and>
         fst ` set ret' = {n. \<exists>t\<in>seen \<union> set ts. db_name (tables_of w0 t) = VStr n}"
  using assms
proof (induction ts arbitrary: ret w seen)
  case Nil
  then show ?case by simp
next
  case (Cons t rest)
  let ?folder = "parent_path (csv_path (tables_of w0 (snd (last D))))"
  note inv = Cons.prems(2) and keys = Cons.prems(3)
  from create_loop_Cons_Inr [OF Cons.prems(1)] obtain n where
    dbn: "db_name (tables_of w t) = VStr n" and
    alt: "(\<exists>d w''. map_of ret n = Some d \<and>
         add_table d t (update_table t (\<lambda>x. x\<lparr>database := Some d\<rparr>) w) = (None, w'') \<and>
         create_loop D rest ret w'' = (Inr ret', w')) \<or>
      (\<exists>d w1 w''. map_of ret n = None \<and>
         Database_init n (VPath (parent_path (csv_path (tables_of w (snd (last D)))))) None w =
           (Inr d, w1) \<and>
         add_table d t (update_table t (\<lambda>x. x\<lparr>database := Some d\<rparr>) w1) = (None, w'') \<and>
         create_loop D rest (dict_set n d ret) w'' = (Inr ret', w'))"
    by blast
  have dbn0: "db_name (tables_of w0 t) = VStr n"
    using loop_inv_db_name [OF inv dbn] .
  from inv have path: "csv_path (tables_of w x) = csv_path (tables_of w0 x)" for x
    unfolding loop_inv_def by blast
  from alt show ?case
  proof
    assume "\<exists>d w''. map_of ret n = Some d \<and>
         add_table d t (update_table t (\<lambda>x. x\<lparr>database := Some d\<rparr>) w) = (None, w'') \<and>
         create_loop D rest ret w'' = (Inr ret', w')"
    then obtain d w'' where old: "map_of ret n = Some d" and
      reg: "add_table d t (update_table t (\<lambda>x. x\<lparr>database := Some d\<rparr>) w) = (None, w'')" and
      run: "create_loop D rest ret w'' = (Inr ret', w')"
      by blast
    from loop_inv_register [OF inv dbn old reg]
    have inv': "loop_inv ?folder w0 (insert t seen) ret w''" .
    from map_of_SomeD [OF old] have "n \<in> fst ` set ret"
      by force
    with keys dbn0 have keys':
      "fst ` set ret = {n. \<exists>x\<in>insert t seen. db_name (tables_of w0 x) = VStr n}"
      by auto
    from Cons.IH [OF run inv' keys'] show ?thesis by simp
  next
    assume "\<exists>d w1 w''. map_of ret n = None \<and>
         Database_init n (VPath (parent_path (csv_path (tables_of w (snd (last D)))))) None w =
           (Inr d, w1) \<and>
         add_table d t (update_table t (\<lambda>x. x\<lparr>database := Some d\<rparr>) w1) = (None, w'') \<and>
         create_loop D rest (dict_set n d ret) w'' = (Inr ret', w')"
    then obtain d w1 w'' where new: "map_of ret n = None" and
      ini: "Database_init n (VPath ?folder) None w = (Inr d, w1)" and
      reg: "add_table d t (update_table t (\<lambda>x. x\<lparr>database := Some d\<rparr>) w1) = (None, w'')" and
      run: "create_loop D rest (dict_set n d ret) w'' = (Inr ret', w')"
      unfolding path by blast
    have ret': "dict_set n d ret = ret @ [(n, d)]"
      using new by (simp add: dict_set_fresh map_of_None_keys)
    from loop_inv_init [OF inv new ini]
    have inv1: "loop_inv ?folder w0 seen (ret @ [(n, d)]) w1" .
    from Database_init_fields [OF ini] have "tables_of w1 = tables_of w"
      by simp
    with dbn have dbn1: "db_name (tables_of w1 t) = VStr n"
      by simp
    have old1: "map_of (ret @ [(n, d)]) n = Some d"
      using new by (simp add: map_add_def)
    from loop_inv_register [OF inv1 dbn1 old1 reg]
    have inv': "loop_inv ?folder w0 (insert t seen) (dict_set n d ret) w''"
      by (simp only: ret')
    from keys dbn0 have keys':
      "fst ` set (dict_set n d ret) = {n. \<exists>x\<in>insert t seen. db_name (tables_of w0 x) = VStr n}"
      by (auto simp: ret')
    from Cons.IH [OF run inv' keys'] show ?thesis by simp
  qed
qed

lemma loop_inv_start: "loop_inv folder w {} [] w"
  by (simp add: loop_inv_def)

lemma loop_inv_result:
  assumes inv: "loop_inv folder w seen ret w'"
    and keys: "fst ` set ret = {n. \<exists>t\<in>seen. db_name (tables_of w t) = VStr n}"
  shows "distinct (map fst ret) \<and>
         fst ` set ret = {n. \<exists>t\<in>seen. db_name (tables_of w t) = VStr n} \<and>
         map snd ret = [next_db w ..< next_db w'] \<and>
         next_db w' = next_db w + card {n. \<exists>t\<in>seen. db_name (tables_of w t) = VStr n} \<and>
         (\<forall>t\<in>seen.
            \<exists>n d. db_name (tables_of w t) = VStr n \<and> map_of ret n = Some d \<and>
              registered folder w seen w' n d t \<and> owns_seen w seen w' d)"
proof -
  from inv have
    C: "distinct (map fst ret)" and
    N: "next_db w \<le> next_db w'" and
    F: "map snd ret = [next_db w ..< next_db w']" and
    G: "\<And>e. e \<in> set ret \<Longrightarrow> owns_seen w seen w' (snd e)" and
    E: "\<And>x. x \<in> seen \<Longrightarrow> \<exists>n d. db_name (tables_of w x) = VStr n \<and>
          map_of ret n = Some d \<and> registered folder w seen w' n d x"
    unfolding loop_inv_def by blast+
  have l1: "length ret = card (fst ` set ret)"
    using C distinct_card [of "map fst ret"] by simp
  have "length (map snd ret) = length [next_db w ..< next_db w']"
    by (simp only: F)
  then have l2: "length ret = next_db w' - next_db w"
    by simp
  have count: "next_db w' = next_db w + card {n. \<exists>t\<in>seen. db_name (tables_of w t) = VStr n}"
    using l1 l2 N unfolding keys by arith
  have each: "\<exists>n d. db_name (tables_of w t) = VStr n \<and> map_of ret n = Some d \<and>
              registered folder w seen w' n d t \<and> owns_seen w seen w' d"
    if t: "t \<in> seen" for t
  proof -
    from E [OF t] obtain n d where
      nd: "db_name (tables_of w t) = VStr n" "map_of ret n = Some d"
        "registered folder w seen w' n d t"
      by blast
    from nd(2) have "(n, d) \<in> set ret" by (rule map_of_SomeD)
    from G [OF this] have "owns_seen w seen w' d" by simp
    with nd show ?thesis by blast
  qed
  from each have all: "\<forall>t\<in>seen.
            \<exists>n d. db_name (tables_of w t) = VStr n \<and> map_of ret n = Some d \<and>
              registered folder w seen w' n d t \<and> owns_seen w seen w' d"
    by (rule ballI)
  show ?thesis
    by (intro conjI C keys F count all)
qed

text \<open>C3. Whenever \<^verbatim>\<open>create_from_dict\<close> returns:
  \<^item> the returned mapping has one entry for each database name that occurs among the input
    tables, and no other;
  \<^item> its values are the databases constructed by the call, one new object per entry, so
    exactly one database is constructed for each name;
  \<^item> every input table is registered with the database kept under its own database name, so
    tables of one name share one instance: the table refers back to it and has taken its
    \<^verbatim>\<open>db_name\<close> from it; the database's attribute named like the table is bound to the last
    input table of that name registered with it, and its store file, in the folder of the
    last table of the mapping, holds that table's relation under the name;
  \<^item> and that database owns, in its list, every input table that refers back to it, except
    when a table named \<^verbatim>\<open>tables\<close> was registered with it, which then stands in place of the
    list.\<close>

theorem create_from_dict_one_database_per_name:
  assumes run: "create_from_dict db_dict w = (Inr return_dict, w')"
  shows "distinct (map fst return_dict) \<and>
         fst ` set return_dict = {n. \<exists>t\<in>snd ` set db_dict. db_name (tables_of w t) = VStr n} \<and>
         map snd return_dict = [next_db w ..< next_db w'] \<and>
         next_db w' =
           next_db w + card {n. \<exists>t\<in>snd ` set db_dict. db_name (tables_of w t) = VStr n} \<and>
         (\<forall>t\<in>snd ` set db_dict.
            \<exists>n d. db_name (tables_of w t) = VStr n \<and> map_of return_dict n = Some d \<and>
              registered (parent_path (csv_path (tables_of w (snd (last db_dict)))))
                w (snd ` set db_dict) w' n d t \<and>
              owns_seen w (snd ` set db_dict) w' d)"
proof -
  let ?folder = "parent_path (csv_path (tables_of w (snd (last db_dict))))"
  from run have "create_loop db_dict (map snd db_dict) [] w = (Inr return_dict, w')"
    by (simp only: create_from_dict_def)
  from create_loop_inv [OF this loop_inv_start]
  have "loop_inv ?folder w ({} \<union> set (map snd db_dict)) return_dict w' \<and>
      fst ` set return_dict =
        {n. \<exists>t\<in>{} \<union> set (map snd db_dict). db_name (tables_of w t) = VStr n}"
    by simp
  then have "loop_inv ?folder w (snd ` set db_dict) return_dict w'"
    and "fst ` set return_dict = {n. \<exists>t\<in>snd ` set db_dict. db_name (tables_of w t) = VStr n}"
    by (simp_all only: Un_empty_left set_map)
  then show ?thesis
    by (rule loop_inv_result)
qed

lemma example_generation_fst:
  "fst (create_from_dict [(''school_math'', 0), (''school_portuguese'', 2), (''club_members'', 3)]
     example_world) = Inr [(''school'', 0), (''club'', 1)]"
  by code_simp

lemma example_db_names:
  "db_name (tables_of example_world 0) = VStr ''school''"
  "db_name (tables_of example_world 2) = VStr ''school''"
  "db_name (tables_of example_world 3) = VStr ''club''"
  "name (tables_of example_world 0) = ''math''"
  "name (tables_of example_world 2) = ''portuguese''"
  "name (tables_of example_world 3) = ''members''"
  "index_label (tables_of example_world 0) = Some ''ID''"
  by code_simp+

lemma example_store_names:
  "parent_path (csv_path (tables_of example_world (snd (last
     [(''school_math'', 0::nat), (''school_portuguese'', 2), (''club_members'', 3)])))) = ''/data''"
  "join_path ''/data'' ''school.db'' = ''/data/school.db''"
  "sql_fold ''math'' = ''math''"
  "sql_relation ''ID'' (dataframe (tables_of example_world 0)) =
     [(''ID'', [IntV 0, IntV 1]), (''age'', [IntV 15, IntV 16])]"
  by code_simp+

lemma example_generation:
  "create_from_dict [(''school_math'', 0), (''school_portuguese'', 2), (''club_members'', 3)]
     example_world =
   (Inr [(''school'', 0), (''club'', 1)],
    snd (create_from_dict [(''school_math'', 0), (''school_portuguese'', 2), (''club_members'', 3)]
      example_world))"
  by (simp only: prod_eq_iff fst_conv snd_conv example_generation_fst simp_thms)

text \<open>The theorem at a mapping of three tables of the example world, two of them of the
  database \<^verbatim>\<open>school\<close>: two databases are constructed; both school tables refer back to
  the first, which owns them in its list; the table \<^verbatim>\<open>math\<close> is bound under its name, and
  the store file of \<^verbatim>\<open>school\<close> holds its relation.\<close>

theorem create_from_dict_one_database_per_name_witness:
  "fst (create_from_dict [(''school_math'', 0), (''school_portuguese'', 2), (''club_members'', 3)]
     example_world) = Inr [(''school'', 0), (''club'', 1)] \<and>
   next_db (snd (create_from_dict
     [(''school_math'', 0), (''school_portuguese'', 2), (''club_members'', 3)] example_world)) = 2 \<and>
   database (tables_of (snd (create_from_dict
     [(''school_math'', 0), (''school_portuguese'', 2), (''club_members'', 3)] example_world)) 0) =
     Some 0 \<and>
   database (tables_of (snd (create_from_dict
     [(''school_math'', 0), (''school_portuguese'', 2), (''club_members'', 3)] example_world)) 2) =
     Some 0 \<and>
   database (tables_of (snd (create_from_dict
     [(''school_math'', 0), (''school_portuguese'', 2), (''club_members'', 3)] example_world)) 3) =
     Some 1 \<and>
   databases (snd (create_from_dict
     [(''school_math'', 0), (''school_portuguese'', 2), (''club_members'', 3)] example_world)) 0
       ''math'' = Some (VTable 0) \<and>
   sqlite (snd (create_from_dict
     [(''school_math'', 0), (''school_portuguese'', 2), (''club_members'', 3)] example_world))
       ''/data/school.db'' ''math'' =
     Some (''math'', [(''ID'', [IntV 0, IntV 1]), (''age'', [IntV 15, IntV 16])]) \<and>
   (\<exists>ts. databases (snd (create_from_dict
       [(''school_math'', 0), (''school_portuguese'', 2), (''club_members'', 3)] example_world)) 0
         ''tables'' = Some (VList ts) \<and> 0 \<in> set ts \<and> 2 \<in> set ts)"
proof -
  define w' where "w' = snd (create_from_dict
     [(''school_math'', 0), (''school_portuguese'', 2), (''club_members'', 3)] example_world)"
  note inst = create_from_dict_one_database_per_name
    [OF example_generation, folded w'_def, unfolded example_store_names(1)]
  note vals = inst [THEN conjunct2, THEN conjunct2, THEN conjunct1]
  note each = inst [THEN conjunct2, THEN conjunct2, THEN conjunct2, THEN conjunct2, rule_format]
  have n0: "next_db example_world = 0"
    by (simp add: example_world_def)
  have "length (map snd [(''school'', 0::nat), (''club'', 1)]) =
      length [next_db example_world ..< next_db w']"
    by (simp only: vals)
  then have next2: "next_db w' = 2"
    by (simp add: n0)
  have mem: "0 \<in> snd ` set [(''school_math'', 0::nat), (''school_portuguese'', 2), (''club_members'', 3)]"
    "2 \<in> snd ` set [(''school_math'', 0::nat), (''school_portuguese'', 2), (''club_members'', 3)]"
    "3 \<in> snd ` set [(''school_math'', 0::nat), (''school_portuguese'', 2), (''club_members'', 3)]"
    by simp_all
  from each [OF mem(1)] obtain n d where
    "db_name (tables_of example_world 0) = VStr n"
    "map_of [(''school'', 0::nat), (''club'', 1)] n = Some d" and
    r: "registered ''/data'' example_world
          (snd ` set [(''school_math'', 0::nat), (''school_portuguese'', 2), (''club_members'', 3)])
          w' n d 0" and
    o: "owns_seen example_world
          (snd ` set [(''school_math'', 0::nat), (''school_portuguese'', 2), (''club_members'', 3)])
          w' d"
    by blast
  then have nd: "n = ''school''" "d = 0"
    by (auto simp: example_db_names)
  from r have t0: "database (tables_of w' 0) = Some 0"
    by (simp add: registered_def nd)
  from r have "databases w' 0 ''math'' = Some (VTable 0) \<and>
      sqlite w' ''/data/school.db'' ''math'' =
        Some (''math'', sql_relation ''ID'' (dataframe (tables_of example_world 0)))"
    unfolding registered_def nd
    by (auto simp: example_db_names example_store_names(2,3))
  then have bound: "databases w' 0 ''math'' = Some (VTable 0)"
    and stored: "sqlite w' ''/data/school.db'' ''math'' =
      Some (''math'', [(''ID'', [IntV 0, IntV 1]), (''age'', [IntV 15, IntV 16])])"
    by (simp_all only: example_store_names(4))
  from each [OF mem(2)] obtain n2 d2 where
    "db_name (tables_of example_world 2) = VStr n2"
    "map_of [(''school'', 0::nat), (''club'', 1)] n2 = Some d2"
    "registered ''/data'' example_world
          (snd ` set [(''school_math'', 0::nat), (''school_portuguese'', 2), (''club_members'', 3)])
          w' n2 d2 2"
    by blast
  then have t2: "database (tables_of w' 2) = Some 0"
    by (auto simp: example_db_names registered_def)
  from each [OF mem(3)] obtain n3 d3 where
    "db_name (tables_of example_world 3) = VStr n3"
    "map_of [(''school'', 0::nat), (''club'', 1)] n3 = Some d3"
    "registered ''/data'' example_world
          (snd ` set [(''school_math'', 0::nat), (''school_portuguese'', 2), (''club_members'', 3)])
          w' n3 d3 3"
    by blast
  then have t3: "database (tables_of w' 3) = Some 1"
    by (auto simp: example_db_names registered_def)
  from o t0 t2 have owned:
    "\<exists>ts. databases w' 0 ''tables'' = Some (VList ts) \<and> 0 \<in> set ts \<and> 2 \<in> set ts"
    unfolding owns_seen_def nd
    by (auto simp: example_db_names)
  from example_generation_fst next2 t0 t2 t3 bound stored owned show ?thesis
    unfolding w'_def by (intro conjI)
qed

text \<open>A mapping with a table named \<^verbatim>\<open>tables\<close>: the call returns, and the database's
  \<^verbatim>\<open>tables\<close> is then that table, not a list; the table \<^verbatim>\<open>math\<close> registered before it is
  still bound under its name and held by the store.\<close>

lemma example_generation_tables:
  "fst (create_from_dict [(''school_math'', 0), (''school_tables'', 6)] example_world) =
     Inr [(''school'', 0)] \<and>
   databases (snd (create_from_dict [(''school_math'', 0), (''school_tables'', 6)] example_world))
     0 ''tables'' = Some (VTable 6) \<and>
   databases (snd (create_from_dict [(''school_math'', 0), (''school_tables'', 6)] example_world))
     0 ''math'' = Some (VTable 0) \<and>
   sqlite (snd (create_from_dict [(''school_math'', 0), (''school_tables'', 6)] example_world))
     ''/data/school.db'' ''math'' =
     Some (''math'', [(''ID'', [IntV 0, IntV 1]), (''age'', [IntV 15, IntV 16])])"
  by code_simp

end
